theory Spec2Isabelle
  imports Complex_Main "HOL-Library.Word"
begin

section \<open>Basic types of the Go program\<close>

text \<open>
  Go's \<open>int\<close> (64 bits on the platforms the program targets) and \<open>int64\<close> are 64-bit
  words: \<open>+\<close> wraps around, comparisons are signed. A \<open>time.Time\<close> is the instant it
  denotes, counted in nanoseconds from the zero time (January 1, year 1, 00:00:00 UTC),
  so that \<open>IsZero\<close> is equality with 0 and \<open>After\<close>/\<open>Before\<close> are the strict order.
  A Go \<open>error\<close> is the message it carries; a \<open>nil\<close> error is \<open>None\<close>.

  A \<open>float64\<close> is modelled by the real number it stands for. The only arithmetic the
  program does on scores is to add the constants 0.3, 0.2, 0.2 and 0.4 to 0.0 in that
  order and to compare the sum with 0.75 and 0.95: the exact sums are multiples of 0.1,
  at distance at least 0.05 from both thresholds, so rounding (below \<open>10\<^sup>-\<^sup>1\<^sup>5\<close>) changes no
  comparison. The risk score of a forensic record is only compared with 0.7.
\<close>

type_synonym go_int = "64 word"
type_synonym int64 = "64 word"
type_synonym float64 = real
type_synonym time = int
type_synonym go_error = string

text \<open>A value of type \<open>interface{}\<close> as \<open>encoding/json\<close> decodes it.\<close>

datatype json_value =
    JNull
  | JBool bool
  | JNumber real
  | JString string
  | JArray "json_value list"
  | JObject "(string \<times> json_value) list"

text \<open>The type assertion \<open>v.(string)\<close> on the result of a map lookup, with its \<open>ok\<close>.\<close>

fun as_string :: "json_value option \<Rightarrow> string option" where
  "as_string (Some (JString s)) = Some s"
| "as_string _ = None"

section \<open>Runtime package: events, features, metrics\<close>

record ContainerInfo =
  ID :: string
  Name :: string
  Image :: string
  Namespace :: string
  PodName :: string

text \<open>\<open>Fields\<close> is a Go map that may be \<open>nil\<close> (\<open>None\<close>).\<close>

record SecurityEvent =
  Timestamp :: time
  Priority :: string
  Rule :: string
  Output :: string
  Source :: string
  Tags :: "string list"
  Fields :: "(string \<rightharpoonup> json_value) option"
  Container :: ContainerInfo

text \<open>Field names shared with another struct carry the prefix \<open>bf_\<close>, \<open>pe_\<close>.\<close>

record BehavioralFeatures =
  ProcessName :: string
  ProcessFrequency :: go_int
  SyscallCount :: "string \<rightharpoonup> go_int"
  FileAccessCount :: go_int
  NetworkConnCount :: go_int
  SensitiveFiles :: "string list"
  CommandLine :: string
  ParentProcess :: string
  UserID :: string
  TimeWindow :: string
  ContainerID :: string
  bf_Namespace :: string

record ProcessedEvent =
  Original :: SecurityEvent
  Features :: BehavioralFeatures
  pe_Timestamp :: time
  RiskScore :: float64
  Anomaly :: bool

record ProcessorMetrics =
  TotalEvents :: int64
  ProcessedEvents :: int64
  AnomaliesDetected :: int64
  ErrorCount :: int64

text \<open>What the program prints on standard output, one constructor per \<open>Printf\<close>/\<open>Println\<close>.\<close>

datatype output_line =
    WorkerStarted go_int
  | WorkerStopping go_int
  | WorkerChannelClosed go_int
  | WorkerError go_int go_error
  | AnomalyDetected float64 string string
  | AllProcessorsStopped
  | ParseWarning go_error
  | ChannelFullWarning
  | ConnectedToFalco
  | StartingMonitor
  | StoppingMonitor

text \<open>
  The event processor with the state it points to: the feature extractor's frequency
  table (a Go map, a missing key reads as 0), the metrics, and the standard output
  written so far.
\<close>

record EventProcessor =
  Workers :: go_int
  processFrequency :: "string \<rightharpoonup> go_int"
  Metrics :: ProcessorMetrics
  Stdout :: "output_line list"

definition NewEventProcessor :: "go_int \<Rightarrow> EventProcessor" where
  "NewEventProcessor workers =
     \<lparr>Workers = workers,
      processFrequency = Map.empty,
      Metrics = \<lparr>TotalEvents = 0, ProcessedEvents = 0, AnomaliesDetected = 0, ErrorCount = 0\<rparr>,
      Stdout = []\<rparr>"

section \<open>Feature extraction\<close>

text \<open>
  \<open>contains\<close> is the program's own recursive substring test on byte strings, with Go's
  short-circuit evaluation written as nested conditionals.
\<close>

fun contains :: "string \<Rightarrow> string \<Rightarrow> bool" where
  "contains s substr =
     (if length s \<ge> length substr then
        (if s = substr then True
         else if length s > 0 \<and> length substr > 0 then
           (if take (min (length s) (length substr)) s
                 = take (min (length s) (length substr)) substr then True
            else contains (drop 1 s) substr)
         else False)
      else False)"

declare contains.simps [simp del]

definition sensitivePatterns :: "string list" where
  "sensitivePatterns =
     [''/etc/passwd'', ''/etc/shadow'', ''/etc/ssh'', ''/root/.ssh'', ''.kube/config'',
      ''token'', ''secret'', ''credential'', ''.aws/credentials'']"

fun contains_any :: "string \<Rightarrow> string list \<Rightarrow> bool" where
  "contains_any path [] = False"
| "contains_any path (pattern # rest) =
     (if contains path pattern then True else contains_any path rest)"

definition isSensitiveFile :: "string \<Rightarrow> bool" where
  "isSensitiveFile path = contains_any path sensitivePatterns"

definition map_get :: "(string \<rightharpoonup> go_int) \<Rightarrow> string \<Rightarrow> go_int" where
  "map_get m k = (case m k of None \<Rightarrow> 0 | Some c \<Rightarrow> c)"

definition updateProcessFrequency :: "string \<Rightarrow> EventProcessor \<Rightarrow> EventProcessor" where
  "updateProcessFrequency proc ep =
     ep\<lparr>processFrequency := (processFrequency ep)(proc \<mapsto> map_get (processFrequency ep) proc + 1)\<rparr>"

definition getProcessFrequency :: "EventProcessor \<Rightarrow> string \<Rightarrow> go_int" where
  "getProcessFrequency ep proc = map_get (processFrequency ep) proc"

text \<open>
  \<open>t.Format(layout)\<close> is the standard library's; the model takes it as the parameter
  \<open>fmt\<close>.
\<close>

definition getTimeWindow :: "(time \<Rightarrow> string \<Rightarrow> string) \<Rightarrow> time \<Rightarrow> string" where
  "getTimeWindow fmt t = fmt t ''2006-01-02-15''"

definition Extract ::
  "(time \<Rightarrow> string \<Rightarrow> string) \<Rightarrow> SecurityEvent \<Rightarrow> EventProcessor
     \<Rightarrow> BehavioralFeatures \<times> EventProcessor" where
  "Extract fmt event ep =
     (let features0 =
            \<lparr>ProcessName = [], ProcessFrequency = 0, SyscallCount = Map.empty,
             FileAccessCount = 0, NetworkConnCount = 0, SensitiveFiles = [],
             CommandLine = [], ParentProcess = [], UserID = [],
             TimeWindow = getTimeWindow fmt (Timestamp event),
             ContainerID = ID (Container event),
             bf_Namespace = Namespace (Container event)\<rparr>
      in case Fields event of
           None \<Rightarrow> (features0, ep)
         | Some flds \<Rightarrow>
             (let (features1, ep1) =
                    (case as_string (flds ''proc.name'') of
                       Some proc \<Rightarrow>
                         (let ep' = updateProcessFrequency proc ep
                          in (features0\<lparr>ProcessName := proc,
                                         ProcessFrequency := getProcessFrequency ep' proc\<rparr>,
                              ep'))
                     | None \<Rightarrow> (features0, ep));
                  features2 =
                    (case as_string (flds ''proc.cmdline'') of
                       Some cmdline \<Rightarrow> features1\<lparr>CommandLine := cmdline\<rparr>
                     | None \<Rightarrow> features1);
                  features3 =
                    (case as_string (flds ''proc.pname'') of
                       Some parent \<Rightarrow> features2\<lparr>ParentProcess := parent\<rparr>
                     | None \<Rightarrow> features2);
                  features4 =
                    (case as_string (flds ''user.uid'') of
                       Some uid \<Rightarrow> features3\<lparr>UserID := uid\<rparr>
                     | None \<Rightarrow> features3);
                  features5 =
                    (case as_string (flds ''fd.name'') of
                       Some fd_name \<Rightarrow>
                         (let f = features4\<lparr>FileAccessCount := FileAccessCount features4 + 1\<rparr>
                          in if isSensitiveFile fd_name
                             then f\<lparr>SensitiveFiles := SensitiveFiles f @ [fd_name]\<rparr>
                             else f)
                     | None \<Rightarrow> features4);
                  features6 =
                    (case as_string (flds ''fd.sip'') of
                       Some _ \<Rightarrow> features5\<lparr>NetworkConnCount := NetworkConnCount features5 + 1\<rparr>
                     | None \<Rightarrow> features5)
              in (features6, ep1)))"

section \<open>Risk scoring\<close>

definition knownThreats :: "string list" where
  "knownThreats =
     [''Terminal shell in container'', ''Modify binary dirs'', ''Write below etc'',
      ''Sensitive file opened for reading'', ''Netcat Remote Code Execution'',
      ''Launch Suspicious Network Tool'']"

text \<open>The loop \<open>for _, threat := range knownThreats\<close>, returning at the first match.\<close>

fun rule_matches :: "string \<Rightarrow> string list \<Rightarrow> bool" where
  "rule_matches rule [] = False"
| "rule_matches rule (threat # rest) = (if rule = threat then True else rule_matches rule rest)"

definition isKnownThreat :: "SecurityEvent \<Rightarrow> bool" where
  "isKnownThreat event =
     (if Priority event = ''Critical'' \<or> Priority event = ''Emergency'' then True
      else rule_matches (Rule event) knownThreats)"

definition suspiciousProcesses :: "string list" where
  "suspiciousProcesses = [''nc'', ''ncat'', ''netcat'', ''wget'', ''curl'']"

text \<open>The loop over \<open>suspiciousProcesses\<close>: add 0.4 at the first match and \<open>break\<close>.\<close>

fun add_suspicious :: "string \<Rightarrow> string list \<Rightarrow> float64 \<Rightarrow> float64" where
  "add_suspicious name [] score = score"
| "add_suspicious name (proc # rest) score =
     (if name = proc then score + 0.4 else add_suspicious name rest score)"

definition getAIRiskScore :: "BehavioralFeatures \<Rightarrow> float64" where
  "getAIRiskScore features =
     (let score0 = 0.0;
          score1 = (if length (SensitiveFiles features) > 0 then score0 + 0.3 else score0);
          score2 = (if 10 <s NetworkConnCount features then score1 + 0.2 else score1);
          score3 = (if 50 <s FileAccessCount features then score2 + 0.2 else score2)
      in add_suspicious (ProcessName features) suspiciousProcesses score3)"

text \<open>\<open>storeForensicData\<close> only prints the anomaly and returns \<open>nil\<close>.\<close>

definition storeForensicData :: "ProcessedEvent \<Rightarrow> EventProcessor \<Rightarrow> go_error option \<times> EventProcessor" where
  "storeForensicData event ep =
     (None,
      ep\<lparr>Stdout := Stdout ep @
           [AnomalyDetected (RiskScore event) (Rule (Original event))
              (Name (Container (Original event)))]\<rparr>)"

definition add_anomaly :: "EventProcessor \<Rightarrow> EventProcessor" where
  "add_anomaly ep =
     ep\<lparr>Metrics := (Metrics ep)\<lparr>AnomaliesDetected := AnomaliesDetected (Metrics ep) + 1\<rparr>\<rparr>"

text \<open>
  \<open>processEvent\<close> returns its error; the model returns with it the \<open>ProcessedEvent\<close>
  the function has built (its local variable \<open>processed\<close>) and the new state.
  \<open>now\<close> is the value of \<open>time.Now()\<close>.
\<close>

definition processEvent ::
  "(time \<Rightarrow> string \<Rightarrow> string) \<Rightarrow> time \<Rightarrow> SecurityEvent \<Rightarrow> EventProcessor
     \<Rightarrow> go_error option \<times> ProcessedEvent \<times> EventProcessor" where
  "processEvent fmt now event ep =
     (let (features, ep1) = Extract fmt event ep;
          processed0 = \<lparr>Original = event, Features = features, pe_Timestamp = now,
                        RiskScore = 0.0, Anomaly = False\<rparr>;
          (processed1, ep2) =
            (if isKnownThreat event
             then (processed0\<lparr>RiskScore := 0.95, Anomaly := True\<rparr>, add_anomaly ep1)
             else (processed0, ep1));
          aiScore = getAIRiskScore features;
          processed2 =
            (if aiScore > RiskScore processed1 then processed1\<lparr>RiskScore := aiScore\<rparr>
             else processed1);
          (processed3, ep3) =
            (if aiScore > 0.75 then (processed2\<lparr>Anomaly := True\<rparr>, add_anomaly ep2)
             else (processed2, ep2))
      in if Anomaly processed3 then
           (case storeForensicData processed3 ep3 of
              (Some err, ep4) \<Rightarrow>
                (Some (''failed to store forensic data: '' @ err), processed3, ep4)
            | (None, ep4) \<Rightarrow> (None, processed3, ep4))
         else (None, processed3, ep3))"

section \<open>The worker loop\<close>

definition add_total :: "EventProcessor \<Rightarrow> EventProcessor" where
  "add_total ep = ep\<lparr>Metrics := (Metrics ep)\<lparr>TotalEvents := TotalEvents (Metrics ep) + 1\<rparr>\<rparr>"

definition add_processed :: "EventProcessor \<Rightarrow> EventProcessor" where
  "add_processed ep =
     ep\<lparr>Metrics := (Metrics ep)\<lparr>ProcessedEvents := ProcessedEvents (Metrics ep) + 1\<rparr>\<rparr>"

definition add_error :: "EventProcessor \<Rightarrow> EventProcessor" where
  "add_error ep = ep\<lparr>Metrics := (Metrics ep)\<lparr>ErrorCount := ErrorCount (Metrics ep) + 1\<rparr>\<rparr>"

definition print_line :: "output_line \<Rightarrow> EventProcessor \<Rightarrow> EventProcessor" where
  "print_line l ep = ep\<lparr>Stdout := Stdout ep @ [l]\<rparr>"

text \<open>
  The body of the worker's \<open>case event, ok := <-eventChan\<close> for a received event
  (\<open>ok\<close> true): count it, process it, count the outcome.
\<close>

definition handle_event ::
  "(time \<Rightarrow> string \<Rightarrow> string) \<Rightarrow> go_int \<Rightarrow> time \<Rightarrow> SecurityEvent \<Rightarrow> EventProcessor
     \<Rightarrow> EventProcessor" where
  "handle_event fmt wid now event ep =
     (case processEvent fmt now event (add_total ep) of
        (Some err, _, ep') \<Rightarrow> print_line (WorkerError wid err) (add_error ep')
      | (None, _, ep') \<Rightarrow> add_processed ep')"

text \<open>
  What one \<open>select\<close> of the worker observes: the context is done, the channel is closed,
  or an event is received (with the value \<open>time.Now()\<close> has while it is processed).
  The loop runs over the list of these observations; when the list ends the worker is
  blocked in \<open>select\<close>.
\<close>

datatype select_outcome = CtxDone | ChanClosed | Received time SecurityEvent

datatype task_exit = Returned | Blocked

fun worker_loop ::
  "(time \<Rightarrow> string \<Rightarrow> string) \<Rightarrow> go_int \<Rightarrow> select_outcome list \<Rightarrow> EventProcessor
     \<Rightarrow> task_exit \<times> EventProcessor" where
  "worker_loop fmt wid [] ep = (Blocked, ep)"
| "worker_loop fmt wid (CtxDone # rest) ep = (Returned, print_line (WorkerStopping wid) ep)"
| "worker_loop fmt wid (ChanClosed # rest) ep = (Returned, print_line (WorkerChannelClosed wid) ep)"
| "worker_loop fmt wid (Received now event # rest) ep =
     worker_loop fmt wid rest (handle_event fmt wid now event ep)"

definition worker ::
  "(time \<Rightarrow> string \<Rightarrow> string) \<Rightarrow> go_int \<Rightarrow> select_outcome list \<Rightarrow> EventProcessor
     \<Rightarrow> task_exit \<times> EventProcessor" where
  "worker fmt wid sel ep = worker_loop fmt wid sel (print_line (WorkerStarted wid) ep)"

section \<open>The monitor: bounded queue and ingestion loop\<close>

record MonitorConfig =
  FalcoSocket :: string
  BufferSize :: go_int
  mc_Workers :: go_int
  mc_Namespace :: string
  Deployment :: string

text \<open>
  A buffered Go channel of events: its capacity, the events in its buffer (oldest
  first) and whether it has been closed. The model covers the buffered queue (capacity
  at least 1): while its buffer is full no receiver can be waiting, so a send would
  block. On an unbuffered channel a send can also meet a waiting receiver; the model
  leaves that case out.
\<close>

record channel =
  chan_cap :: nat
  chan_buf :: "SecurityEvent list"
  chan_closed :: bool

datatype go_panic = MakechanSizeOutOfRange | SendOnClosedChannel | CloseOfClosedChannel

definition make_chan :: "go_int \<Rightarrow> go_panic + channel" where
  "make_chan sz =
     (if sz <s 0 then Inl MakechanSizeOutOfRange
      else Inr \<lparr>chan_cap = unat sz, chan_buf = [], chan_closed = False\<rparr>)"

text \<open>
  The monitor with its queue and its processor. What the monitor prints goes to the
  same standard output as what the workers print, the one in the processor's state.
  The state of the context \<open>m.ctx\<close> is what the loops observe at their \<open>select\<close>.
\<close>

record Monitor =
  Config :: MonitorConfig
  EventChan :: channel
  Processor :: EventProcessor

definition NewMonitor :: "MonitorConfig \<Rightarrow> go_panic + Monitor" where
  "NewMonitor config =
     (case make_chan (BufferSize config) of
        Inl p \<Rightarrow> Inl p
      | Inr c \<Rightarrow>
          Inr \<lparr>Config = config, EventChan = c,
               Processor = NewEventProcessor (mc_Workers config)\<rparr>)"

text \<open>\<open>json.Unmarshal\<close> into a \<open>SecurityEvent\<close> is the parameter \<open>unmarshal\<close>.\<close>

definition parseEvent ::
  "(string \<Rightarrow> go_error + SecurityEvent) \<Rightarrow> string \<Rightarrow> go_error + SecurityEvent" where
  "parseEvent unmarshal data = unmarshal data"

definition shouldProcessEvent :: "Monitor \<Rightarrow> SecurityEvent \<Rightarrow> bool" where
  "shouldProcessEvent m event =
     (if mc_Namespace (Config m) \<noteq> [] \<and> Namespace (Container event) \<noteq> mc_Namespace (Config m)
      then False
      else if Deployment (Config m) \<noteq> [] then
        (if PodName (Container event) = []
            \<or> \<not> contains (PodName (Container event)) (Deployment (Config m))
         then False else True)
      else True)"

text \<open>
  The statement \<open>select { case m.EventChan <- event: default: ... }\<close>: the send is taken
  when the buffer has room, the \<open>default\<close> branch (print a warning, drop the event)
  otherwise; a send on a closed channel panics.
\<close>

definition select_send :: "SecurityEvent \<Rightarrow> Monitor \<Rightarrow> go_panic + Monitor" where
  "select_send event m =
     (let c = EventChan m in
      if chan_closed c then Inl SendOnClosedChannel
      else if length (chan_buf c) < chan_cap c
        then Inr (m\<lparr>EventChan := c\<lparr>chan_buf := chan_buf c @ [event]\<rparr>\<rparr>)
      else Inr (m\<lparr>Processor := print_line ChannelFullWarning (Processor m)\<rparr>))"

text \<open>The body of the ingestion loop for one scanned line.\<close>

definition consume_line ::
  "(string \<Rightarrow> go_error + SecurityEvent) \<Rightarrow> string \<Rightarrow> Monitor \<Rightarrow> go_panic + Monitor" where
  "consume_line unmarshal line m =
     (case parseEvent unmarshal line of
        Inl err \<Rightarrow> Inr (m\<lparr>Processor := print_line (ParseWarning err) (Processor m)\<rparr>)
      | Inr event \<Rightarrow>
          if \<not> shouldProcessEvent m event then Inr m
          else select_send event m)"

text \<open>
  One iteration of the loop sees the context done, or else the result of
  \<open>scanner.Scan()\<close>: a line, or the end of the input with \<open>scanner.Err()\<close>.
\<close>

datatype iteration = SeenDone | ScanLine string | ScanEnd "go_error option"

datatype consume_exit = Exit "go_error option" | Reading | Panic go_panic

fun consume_loop ::
  "(string \<Rightarrow> go_error + SecurityEvent) \<Rightarrow> iteration list \<Rightarrow> Monitor
     \<Rightarrow> consume_exit \<times> Monitor" where
  "consume_loop unmarshal [] m = (Reading, m)"
| "consume_loop unmarshal (SeenDone # rest) m = (Exit None, m)"
| "consume_loop unmarshal (ScanEnd (Some err) # rest) m =
     (Exit (Some (''scanner error: '' @ err)), m)"
| "consume_loop unmarshal (ScanEnd None # rest) m = (Exit None, m)"
| "consume_loop unmarshal (ScanLine line # rest) m =
     (case consume_line unmarshal line m of
        Inl p \<Rightarrow> (Panic p, m)
      | Inr m' \<Rightarrow> consume_loop unmarshal rest m')"

text \<open>\<open>dial\<close> is the result of \<open>net.Dial\<close>: \<open>None\<close> when the connection is made.\<close>

definition consumeFalcoEvents ::
  "(string \<Rightarrow> go_error + SecurityEvent) \<Rightarrow> go_error option \<Rightarrow> iteration list \<Rightarrow> Monitor
     \<Rightarrow> consume_exit \<times> Monitor" where
  "consumeFalcoEvents unmarshal dial its m =
     (case dial of
        Some err \<Rightarrow> (Exit (Some (''failed to connect to Falco socket: '' @ err)), m)
      | None \<Rightarrow>
          consume_loop unmarshal its
            (m\<lparr>Processor := print_line ConnectedToFalco (Processor m)\<rparr>))"

section \<open>The pipeline with one worker\<close>

text \<open>
  The ingestion task and a single worker share the queue. A run is a schedule of
  actions: \<open>Ingest line\<close> is one iteration of the ingestion loop on a scanned line;
  \<open>Work wid now\<close> is the worker's receive: with an event in the buffer it takes the
  oldest one and handles it, with an empty buffer it stays blocked.
\<close>

datatype action = Ingest string | Work go_int time

definition receive_step ::
  "(time \<Rightarrow> string \<Rightarrow> string) \<Rightarrow> go_int \<Rightarrow> time \<Rightarrow> Monitor \<Rightarrow> Monitor" where
  "receive_step fmt wid now m =
     (case chan_buf (EventChan m) of
        [] \<Rightarrow> m
      | event # rest \<Rightarrow>
          m\<lparr>EventChan := (EventChan m)\<lparr>chan_buf := rest\<rparr>,
            Processor := handle_event fmt wid now event (Processor m)\<rparr>)"

fun run ::
  "(time \<Rightarrow> string \<Rightarrow> string) \<Rightarrow> (string \<Rightarrow> go_error + SecurityEvent) \<Rightarrow> action list
     \<Rightarrow> Monitor \<Rightarrow> go_panic + Monitor" where
  "run fmt unmarshal [] m = Inr m"
| "run fmt unmarshal (Ingest line # rest) m =
     (case consume_line unmarshal line m of
        Inl p \<Rightarrow> Inl p
      | Inr m' \<Rightarrow> run fmt unmarshal rest m')"
| "run fmt unmarshal (Work wid now # rest) m =
     run fmt unmarshal rest (receive_step fmt wid now m)"

fun ingested :: "action list \<Rightarrow> string list" where
  "ingested [] = []"
| "ingested (Ingest line # rest) = line # ingested rest"
| "ingested (Work wid now # rest) = ingested rest"

section \<open>Shutdown: the tasks of a started monitor\<close>

text \<open>
  \<open>Monitor.Start\<close> starts the workers (counted by a wait group local to
  \<open>EventProcessor.Start\<close>, which only a detached goroutine waits for), then the
  ingestion task and the metrics collector, both counted by the monitor's own wait
  group \<open>m.wg\<close>. \<open>Monitor.Stop\<close> is the three statements \<open>m.cancel()\<close>,
  \<open>m.wg.Wait()\<close>, \<open>close(m.EventChan)\<close>. The tasks run concurrently; a step of the
  system is a step of one of them.
\<close>

datatype task = Running | Exited

datatype stop_pc = NotCalled | AfterCancel | AfterWait | AfterClose

record lifecycle =
  cancelled :: bool
  monitor_wg :: nat
  workers_wg :: nat
  ingestion :: task
  collector :: task
  worker_tasks :: "task list"
  queue_closed :: bool
  stop :: stop_pc

definition started :: "nat \<Rightarrow> lifecycle" where
  "started n =
     \<lparr>cancelled = False, monitor_wg = 2, workers_wg = n, ingestion = Running,
      collector = Running, worker_tasks = replicate n Running, queue_closed = False,
      stop = NotCalled\<rparr>"

text \<open>
  The ingestion task returns on cancellation, at the end of the input or on an error;
  the collector returns on cancellation; a worker returns when its \<open>select\<close> sees the
  context done or the channel closed. Each runs its deferred \<open>wg.Done()\<close> as it exits.
\<close>

inductive lc_step :: "lifecycle \<Rightarrow> lifecycle \<Rightarrow> bool" where
  stop_cancel:
    "stop s = NotCalled \<Longrightarrow> lc_step s (s\<lparr>cancelled := True, stop := AfterCancel\<rparr>)"
| stop_wait:
    "stop s = AfterCancel \<Longrightarrow> monitor_wg s = 0 \<Longrightarrow> lc_step s (s\<lparr>stop := AfterWait\<rparr>)"
| stop_close:
    "stop s = AfterWait \<Longrightarrow> lc_step s (s\<lparr>queue_closed := True, stop := AfterClose\<rparr>)"
| ingestion_exit:
    "ingestion s = Running \<Longrightarrow>
       lc_step s (s\<lparr>ingestion := Exited, monitor_wg := monitor_wg s - 1\<rparr>)"
| collector_exit:
    "collector s = Running \<Longrightarrow> cancelled s \<Longrightarrow>
       lc_step s (s\<lparr>collector := Exited, monitor_wg := monitor_wg s - 1\<rparr>)"
| worker_exit:
    "i < length (worker_tasks s) \<Longrightarrow> worker_tasks s ! i = Running \<Longrightarrow>
     cancelled s \<or> queue_closed s \<Longrightarrow>
       lc_step s (s\<lparr>worker_tasks := (worker_tasks s)[i := Exited],
                    workers_wg := workers_wg s - 1\<rparr>)"

inductive reachable :: "nat \<Rightarrow> lifecycle \<Rightarrow> bool" for n :: nat where
  reach_start: "reachable n (started n)"
| reach_step: "reachable n s \<Longrightarrow> lc_step s s' \<Longrightarrow> reachable n s'"

section \<open>Forensics package: the vault\<close>

record ContainerContext =
  cc_ID :: string
  cc_Name :: string
  cc_Image :: string
  cc_Namespace :: string
  cc_PodName :: string
  Labels :: "string \<rightharpoonup> string"

record ForensicEvent =
  fe_Timestamp :: time
  fe_Rule :: string
  fe_Priority :: string
  fe_Output :: string
  fe_Fields :: "string \<rightharpoonup> json_value"

record SystemCall =
  sc_Timestamp :: time
  sc_Name :: string
  sc_Process :: string
  sc_PID :: go_int
  Args :: "string list"
  ReturnVal :: go_int

record NetworkTrace =
  nt_Timestamp :: time
  Protocol :: string
  SourceIP :: string
  SourcePort :: go_int
  DestIP :: string
  DestPort :: go_int
  BytesSent :: int64
  BytesRecv :: int64

record FileOperation =
  fo_Timestamp :: time
  Operation :: string
  FilePath :: string
  fo_Process :: string
  fo_PID :: go_int
  Success :: bool

record ForensicRecord =
  fr_ID :: string
  fr_Timestamp :: time
  IncidentType :: string
  Severity :: string
  fr_RiskScore :: float64
  fr_Container :: ContainerContext
  Events :: "ForensicEvent list"
  SystemCalls :: "SystemCall list"
  NetworkTraces :: "NetworkTrace list"
  FileOperations :: "FileOperation list"
  Metadata :: "string \<rightharpoonup> json_value"

record VaultConfig =
  StoragePath :: string
  RetentionDays :: go_int
  MaxSizeMB :: go_int
  Compression :: bool

record StorageBackend =
  BasePath :: string

record RetentionPolicy =
  rp_RetentionDays :: go_int
  rp_MaxSizeMB :: go_int

record Vault =
  v_Config :: VaultConfig
  Storage :: StorageBackend
  Policy :: RetentionPolicy

text \<open>
  The standard-library functions the vault calls, over a file system of type \<open>'fs\<close>:
  they are parameters of the model. \<open>ioutil_WriteFile\<close> returns the file system it
  leaves behind, also when it fails.
\<close>

record 'fs stdlib =
  json_MarshalIndent :: "ForensicRecord \<Rightarrow> go_error + string"
  json_Unmarshal :: "string \<Rightarrow> go_error + ForensicRecord"
  time_Format :: "time \<Rightarrow> string \<Rightarrow> string"
  filepath_Join :: "string \<Rightarrow> string \<Rightarrow> string"
  filepath_Glob :: "'fs \<Rightarrow> string \<Rightarrow> go_error + string list"
  ioutil_ReadFile :: "'fs \<Rightarrow> string \<Rightarrow> go_error + string"
  ioutil_WriteFile :: "'fs \<Rightarrow> string \<Rightarrow> string \<Rightarrow> go_error option \<times> 'fs"

datatype vault_output = StoredRecordLine string string float64

definition NewStorageBackend :: "string \<Rightarrow> StorageBackend" where
  "NewStorageBackend basePath = \<lparr>BasePath = basePath\<rparr>"

definition NewRetentionPolicy :: "go_int \<Rightarrow> go_int \<Rightarrow> RetentionPolicy" where
  "NewRetentionPolicy days maxSizeMB = \<lparr>rp_RetentionDays = days, rp_MaxSizeMB = maxSizeMB\<rparr>"

text \<open>\<open>mkdir\<close> is the result of \<open>os.MkdirAll\<close>.\<close>

definition NewVault :: "go_error option \<Rightarrow> VaultConfig \<Rightarrow> go_error + Vault" where
  "NewVault mkdir config =
     (case mkdir of
        Some err \<Rightarrow> Inl (''failed to create storage directory: '' @ err)
      | None \<Rightarrow>
          Inr \<lparr>v_Config = config,
               Storage = NewStorageBackend (StoragePath config),
               Policy = NewRetentionPolicy (RetentionDays config) (MaxSizeMB config)\<rparr>)"

definition ShouldRetain :: "RetentionPolicy \<Rightarrow> ForensicRecord \<Rightarrow> bool" where
  "ShouldRetain rp record =
     (if Severity record = ''critical'' \<or> Severity record = ''high'' then True
      else if Severity record = ''medium'' \<and> fr_RiskScore record > 0.7 then True
      else if IncidentType record \<noteq> [] \<and> IncidentType record \<noteq> ''false-positive'' then True
      else False)"

text \<open>
  \<open>generateID\<close> prints \<open>time.Now().UnixNano()\<close> in decimal. The Unix epoch is
  62135596800 seconds after the zero time; the count of nanoseconds is an \<open>int64\<close>.
\<close>

definition digit_char :: "nat \<Rightarrow> char" where
  "digit_char d = ''0123456789'' ! d"

fun show_nat :: "nat \<Rightarrow> string" where
  "show_nat n =
     (if n < 10 then [digit_char n]
      else show_nat (n div 10) @ [digit_char (n mod 10)])"

declare show_nat.simps [simp del]

definition show_int :: "int \<Rightarrow> string" where
  "show_int i = (if i < 0 then CHR ''-'' # show_nat (nat (- i)) else show_nat (nat i))"

definition UnixNano :: "time \<Rightarrow> int64" where
  "UnixNano t = word_of_int (t - 62135596800 * 1000000000)"

definition generateID :: "time \<Rightarrow> string" where
  "generateID now = show_int (sint (UnixNano now))"

text \<open>
  \<open>StoreRecord\<close>: \<open>now_id\<close> and \<open>now_ts\<close> are the values of the two calls of
  \<open>time.Now()\<close>. The result is the error, the file system and the lines printed.
\<close>

definition StoreRecord ::
  "'fs stdlib \<Rightarrow> Vault \<Rightarrow> time \<Rightarrow> time \<Rightarrow> ForensicRecord \<Rightarrow> 'fs
     \<Rightarrow> go_error option \<times> 'fs \<times> vault_output list" where
  "StoreRecord lib v now_id now_ts record fs =
     (let record1 = (if fr_ID record = [] then record\<lparr>fr_ID := generateID now_id\<rparr> else record);
          record2 = (if fr_Timestamp record1 = 0 then record1\<lparr>fr_Timestamp := now_ts\<rparr>
                     else record1)
      in if \<not> ShouldRetain (Policy v) record2
         then (Some ''record does not meet retention criteria'', fs, [])
         else
           (case json_MarshalIndent lib record2 of
              Inl err \<Rightarrow> (Some (''failed to marshal record: '' @ err), fs, [])
            | Inr data \<Rightarrow>
                (let filename = time_Format lib (fr_Timestamp record2) ''20060102_150405''
                                  @ ''_'' @ fr_ID record2 @ ''.json'';
                     path = filepath_Join lib (StoragePath (v_Config v)) filename
                 in case ioutil_WriteFile lib fs path data of
                      (Some err, fs') \<Rightarrow> (Some (''failed to write record: '' @ err), fs', [])
                    | (None, fs') \<Rightarrow>
                        (None, fs',
                         [StoredRecordLine (fr_ID record2) (Severity record2)
                            (fr_RiskScore record2)]))))"

text \<open>The loop of \<open>ListRecords\<close> over the files the glob has found.\<close>

fun list_loop ::
  "'fs stdlib \<Rightarrow> 'fs \<Rightarrow> time \<Rightarrow> time \<Rightarrow> string list \<Rightarrow> ForensicRecord list
     \<Rightarrow> ForensicRecord list" where
  "list_loop lib fs from_t to_t [] records = records"
| "list_loop lib fs from_t to_t (file # files) records =
     (case ioutil_ReadFile lib fs file of
        Inl err \<Rightarrow> list_loop lib fs from_t to_t files records
      | Inr data \<Rightarrow>
          (case json_Unmarshal lib data of
             Inl err \<Rightarrow> list_loop lib fs from_t to_t files records
           | Inr record \<Rightarrow>
               if fr_Timestamp record > from_t \<and> fr_Timestamp record < to_t
               then list_loop lib fs from_t to_t files (records @ [record])
               else list_loop lib fs from_t to_t files records))"

definition ListRecords ::
  "'fs stdlib \<Rightarrow> Vault \<Rightarrow> time \<Rightarrow> time \<Rightarrow> 'fs \<Rightarrow> go_error + ForensicRecord list" where
  "ListRecords lib v from_t to_t fs =
     (case filepath_Glob lib fs (filepath_Join lib (StoragePath (v_Config v)) ''*.json'') of
        Inl err \<Rightarrow> Inl err
      | Inr files \<Rightarrow> Inr (list_loop lib fs from_t to_t files []))"

section \<open>Definitions for the properties\<close>

subsection \<open>The scoring rule in the words of the specification\<close>

text \<open>
  The heuristic score as the specification words it: a sum of one fixed weight per
  indicator, not normalised and not clamped; and the rule-based score.
\<close>

definition weight_sensitive_file :: float64 where "weight_sensitive_file = 0.3"
definition weight_network :: float64 where "weight_network = 0.2"
definition weight_file_access :: float64 where "weight_file_access = 0.2"
definition weight_suspicious_process :: float64 where "weight_suspicious_process = 0.4"

definition weighted_indicator_sum :: "BehavioralFeatures \<Rightarrow> float64" where
  "weighted_indicator_sum features =
     (if SensitiveFiles features \<noteq> [] then weight_sensitive_file else 0)
   + (if 10 <s NetworkConnCount features then weight_network else 0)
   + (if 50 <s FileAccessCount features then weight_file_access else 0)
   + (if ProcessName features \<in> set suspiciousProcesses then weight_suspicious_process else 0)"

definition rule_score :: "SecurityEvent \<Rightarrow> float64" where
  "rule_score event = (if isKnownThreat event then 0.95 else 0.0)"

subsection \<open>The steps of feature extraction\<close>

text \<open>The process name of an event: its \<open>proc.name\<close> field when that is a string.\<close>

definition proc_name_of :: "SecurityEvent \<Rightarrow> string option" where
  "proc_name_of event =
     (case Fields event of None \<Rightarrow> None | Some flds \<Rightarrow> as_string (flds ''proc.name''))"

text \<open>
  The blocks of \<open>Extract\<close> after the process name, one function per \<open>if\<close>, and the
  features before the fields are read: \<open>Extract\<close> is their composition
  (\<open>Extract_steps\<close> below).
\<close>

definition with_cmdline :: "(string \<rightharpoonup> json_value) \<Rightarrow> BehavioralFeatures \<Rightarrow> BehavioralFeatures" where
  "with_cmdline flds features =
     (case as_string (flds ''proc.cmdline'') of
        Some cmdline \<Rightarrow> features\<lparr>CommandLine := cmdline\<rparr>
      | None \<Rightarrow> features)"

definition with_parent :: "(string \<rightharpoonup> json_value) \<Rightarrow> BehavioralFeatures \<Rightarrow> BehavioralFeatures" where
  "with_parent flds features =
     (case as_string (flds ''proc.pname'') of
        Some parent \<Rightarrow> features\<lparr>ParentProcess := parent\<rparr>
      | None \<Rightarrow> features)"

definition with_uid :: "(string \<rightharpoonup> json_value) \<Rightarrow> BehavioralFeatures \<Rightarrow> BehavioralFeatures" where
  "with_uid flds features =
     (case as_string (flds ''user.uid'') of
        Some uid \<Rightarrow> features\<lparr>UserID := uid\<rparr>
      | None \<Rightarrow> features)"

definition with_file :: "(string \<rightharpoonup> json_value) \<Rightarrow> BehavioralFeatures \<Rightarrow> BehavioralFeatures" where
  "with_file flds features =
     (case as_string (flds ''fd.name'') of
        Some fd_name \<Rightarrow>
          (let f = features\<lparr>FileAccessCount := FileAccessCount features + 1\<rparr>
           in if isSensitiveFile fd_name
              then f\<lparr>SensitiveFiles := SensitiveFiles f @ [fd_name]\<rparr>
              else f)
      | None \<Rightarrow> features)"

definition with_network :: "(string \<rightharpoonup> json_value) \<Rightarrow> BehavioralFeatures \<Rightarrow> BehavioralFeatures" where
  "with_network flds features =
     (case as_string (flds ''fd.sip'') of
        Some _ \<Rightarrow> features\<lparr>NetworkConnCount := NetworkConnCount features + 1\<rparr>
      | None \<Rightarrow> features)"

definition fill_fields :: "(string \<rightharpoonup> json_value) \<Rightarrow> BehavioralFeatures \<Rightarrow> BehavioralFeatures" where
  "fill_fields flds features =
     with_network flds (with_file flds (with_uid flds (with_parent flds
       (with_cmdline flds features))))"

definition initial_features :: "(time \<Rightarrow> string \<Rightarrow> string) \<Rightarrow> SecurityEvent \<Rightarrow> BehavioralFeatures" where
  "initial_features fmt event =
     \<lparr>ProcessName = [], ProcessFrequency = 0, SyscallCount = Map.empty,
      FileAccessCount = 0, NetworkConnCount = 0, SensitiveFiles = [],
      CommandLine = [], ParentProcess = [], UserID = [],
      TimeWindow = getTimeWindow fmt (Timestamp event),
      ContainerID = ID (Container event),
      bf_Namespace = Namespace (Container event)\<rparr>"

subsection \<open>What a worker and a run leave behind\<close>

text \<open>
  The metrics after a list of events has been handled, the events a worker receives
  before it returns, and the line printed for an anomalous event.
\<close>

definition counted :: "ProcessorMetrics \<Rightarrow> SecurityEvent list \<Rightarrow> ProcessorMetrics" where
  "counted m evs =
     \<lparr>TotalEvents = TotalEvents m + of_nat (length evs),
      ProcessedEvents = ProcessedEvents m + of_nat (length evs),
      AnomaliesDetected = AnomaliesDetected m + of_nat (length (filter isKnownThreat evs)),
      ErrorCount = ErrorCount m\<rparr>"

fun received :: "select_outcome list \<Rightarrow> SecurityEvent list" where
  "received [] = []"
| "received (Received now event # rest) = event # received rest"
| "received (CtxDone # rest) = []"
| "received (ChanClosed # rest) = []"

text \<open>The metrics once the worker has gone through the first \<open>k\<close> of its observations.\<close>

definition metrics_after ::
  "(time \<Rightarrow> string \<Rightarrow> string) \<Rightarrow> go_int \<Rightarrow> select_outcome list \<Rightarrow> nat \<Rightarrow> EventProcessor
     \<Rightarrow> ProcessorMetrics" where
  "metrics_after fmt wid sel k ep = Metrics (snd (worker_loop fmt wid (take k sel) ep))"

definition anomaly_line :: "SecurityEvent \<Rightarrow> output_line" where
  "anomaly_line event = AnomalyDetected 0.95 (Rule event) (Name (Container event))"

fun is_anomaly_line :: "output_line \<Rightarrow> bool" where
  "is_anomaly_line (AnomalyDetected score rule name) = True"
| "is_anomaly_line _ = False"

text \<open>
  The events of the scanned lines that reach the queue when there is room: those that
  decode and pass the filter.
\<close>

fun accepted ::
  "(string \<Rightarrow> go_error + SecurityEvent) \<Rightarrow> Monitor \<Rightarrow> string list \<Rightarrow> SecurityEvent list" where
  "accepted unmarshal m [] = []"
| "accepted unmarshal m (line # rest) =
     (case unmarshal line of
        Inl err \<Rightarrow> accepted unmarshal m rest
      | Inr event \<Rightarrow>
          if shouldProcessEvent m event then event # accepted unmarshal m rest
          else accepted unmarshal m rest)"

text \<open>What a run leaves: the metrics, the anomaly lines printed, the queue.\<close>

definition metrics_of :: "go_panic + Monitor \<Rightarrow> ProcessorMetrics option" where
  "metrics_of r = (case r of Inl p \<Rightarrow> None | Inr m \<Rightarrow> Some (Metrics (Processor m)))"

definition anomaly_lines_of :: "go_panic + Monitor \<Rightarrow> output_line list option" where
  "anomaly_lines_of r =
     (case r of Inl p \<Rightarrow> None | Inr m \<Rightarrow> Some (filter is_anomaly_line (Stdout (Processor m))))"

definition queue_of :: "go_panic + Monitor \<Rightarrow> SecurityEvent list option" where
  "queue_of r = (case r of Inl p \<Rightarrow> None | Inr m \<Rightarrow> Some (chan_buf (EventChan m)))"

subsection \<open>The records of the store\<close>

text \<open>
  The record a file of the store holds: \<open>None\<close> for a file that cannot be read or whose
  content does not decode (a corrupt record file).
\<close>

definition stored_record :: "'fs stdlib \<Rightarrow> 'fs \<Rightarrow> string \<Rightarrow> ForensicRecord option" where
  "stored_record lib fs file =
     (case ioutil_ReadFile lib fs file of
        Inl err \<Rightarrow> None
      | Inr data \<Rightarrow> (case json_Unmarshal lib data of Inl err \<Rightarrow> None | Inr record \<Rightarrow> Some record))"

section \<open>Sample inputs\<close>

text \<open>Sample inputs: the zero value of an event, a formatter, and four events.\<close>

definition blank_container :: ContainerInfo where
  "blank_container = \<lparr>ID = [], Name = [], Image = [], Namespace = [], PodName = []\<rparr>"

definition blank_event :: SecurityEvent where
  "blank_event =
     \<lparr>Timestamp = 0, Priority = [], Rule = [], Output = [], Source = [], Tags = [],
      Fields = None, Container = blank_container\<rparr>"

definition demo_fmt :: "time \<Rightarrow> string \<Rightarrow> string" where
  "demo_fmt t layout = show_int (t div 3600000000000)"

definition critical_event :: SecurityEvent where
  "critical_event = blank_event\<lparr>Priority := ''Critical''\<rparr>"

definition shell_event :: SecurityEvent where
  "shell_event =
     blank_event\<lparr>Priority := ''Warning'', Rule := ''Terminal shell in container'',
                 Fields := Some [''proc.name'' \<mapsto> JString ''nc'']\<rparr>"

definition shadow_event :: SecurityEvent where
  "shadow_event =
     blank_event\<lparr>Priority := ''Warning'', Rule := ''Read sensitive file untrusted'',
                 Fields := Some [''fd.name'' \<mapsto> JString ''/etc/shadow'']\<rparr>"

definition benign_event :: SecurityEvent where
  "benign_event =
     blank_event\<lparr>Priority := ''Notice'', Rule := ''Read file'',
                 Fields := Some [''proc.name'' \<mapsto> JString ''ls'']\<rparr>"

text \<open>Features with every indicator present.\<close>

definition saturated_features :: BehavioralFeatures where
  "saturated_features =
     \<lparr>ProcessName = ''curl'', ProcessFrequency = 1, SyscallCount = Map.empty,
      FileAccessCount = 51, NetworkConnCount = 11, SensitiveFiles = [''/etc/shadow''],
      CommandLine = [], ParentProcess = [], UserID = [], TimeWindow = [],
      ContainerID = [], bf_Namespace = []\<rparr>"

definition three_selects :: "select_outcome list" where
  "three_selects = [Received 1 critical_event, Received 2 shadow_event, Received 3 benign_event]"

text \<open>Sample monitor: three lines that decode to the sample events, no filter.\<close>

definition demo_unmarshal :: "string \<Rightarrow> go_error + SecurityEvent" where
  "demo_unmarshal line =
     (if line = ''c'' then Inr critical_event
      else if line = ''s'' then Inr shadow_event
      else if line = ''b'' then Inr benign_event
      else Inl ''unexpected end of JSON input'')"

definition demo_config :: "go_int \<Rightarrow> MonitorConfig" where
  "demo_config n =
     \<lparr>FalcoSocket = ''/var/run/falco.sock'', BufferSize = n, mc_Workers = 1,
      mc_Namespace = [], Deployment = []\<rparr>"

definition demo_monitor :: "go_int \<Rightarrow> SecurityEvent list \<Rightarrow> Monitor" where
  "demo_monitor n queued =
     \<lparr>Config = demo_config n,
      EventChan = \<lparr>chan_cap = unat n, chan_buf = queued, chan_closed = False\<rparr>,
      Processor = NewEventProcessor 1\<rparr>"

definition three_event_schedule :: "action list" where
  "three_event_schedule =
     [Ingest ''c'', Ingest ''s'', Work 0 1, Ingest ''b'', Work 0 2, Work 0 3]"

definition drained_schedule :: "action list" where
  "drained_schedule =
     [Ingest ''c'', Ingest ''s'', Ingest ''b'', Work 0 1, Work 0 2, Work 0 3]"

text \<open>
  A state of a monitor started with one worker in which \<open>Stop\<close> has closed the queue
  and the worker has not exited.
\<close>

definition closed_with_worker_running :: lifecycle where
  "closed_with_worker_running =
     \<lparr>cancelled = True, monitor_wg = 0, workers_wg = 1, ingestion = Exited,
      collector = Exited, worker_tasks = [Running], queue_closed = True,
      stop = AfterClose\<rparr>"

text \<open>
  A small in-memory instance of the library, to run the vault on concrete inputs: the
  file system is a list of paths with their contents, a glob pattern may use \<open>*\<close>
  (any run of characters other than the separator), and three contents decode.
\<close>

fun star_match :: "string \<Rightarrow> string \<Rightarrow> bool" where
  "star_match [] s = (s = [])"
| "star_match (p # ps) [] = (p = CHR ''*'' \<and> star_match ps [])"
| "star_match (p # ps) (c # cs) =
     (if p = CHR ''*'' then star_match ps (c # cs) \<or> (c \<noteq> CHR ''/'' \<and> star_match (p # ps) cs)
      else p = c \<and> star_match ps cs)"

definition blank_context :: ContainerContext where
  "blank_context =
     \<lparr>cc_ID = [], cc_Name = [], cc_Image = [], cc_Namespace = [], cc_PodName = [],
      Labels = Map.empty\<rparr>"

definition blank_record :: ForensicRecord where
  "blank_record =
     \<lparr>fr_ID = [], fr_Timestamp = 0, IncidentType = [], Severity = [], fr_RiskScore = 0,
      fr_Container = blank_context, Events = [], SystemCalls = [], NetworkTraces = [],
      FileOperations = [], Metadata = Map.empty\<rparr>"

definition record_at :: "time \<Rightarrow> ForensicRecord" where
  "record_at t = blank_record\<lparr>fr_ID := show_int t, fr_Timestamp := t, Severity := ''high''\<rparr>"

definition demo_decode :: "string \<Rightarrow> go_error + ForensicRecord" where
  "demo_decode data =
     (if data = ''A'' then Inr (record_at 100)
      else if data = ''B'' then Inr (record_at 200)
      else if data = ''C'' then Inr (record_at 300)
      else Inl ''invalid character'')"

definition demo_lib :: "(string \<times> string) list stdlib" where
  "demo_lib =
     \<lparr>json_MarshalIndent = (\<lambda>r. Inr (fr_ID r)),
      json_Unmarshal = demo_decode,
      time_Format = demo_fmt,
      filepath_Join = (\<lambda>dir file. dir @ ''/'' @ file),
      filepath_Glob = (\<lambda>fs pattern. Inr (filter (star_match pattern) (map fst fs))),
      ioutil_ReadFile =
        (\<lambda>fs path. case map_of fs path of
                      None \<Rightarrow> Inl ''no such file or directory''
                    | Some data \<Rightarrow> Inr data),
      ioutil_WriteFile = (\<lambda>fs path data. (None, (path, data) # fs))\<rparr>"

definition demo_fs :: "(string \<times> string) list" where
  "demo_fs =
     [(''/v/a.json'', ''A''), (''/v/b.json'', ''B''), (''/v/c.json'', ''C''),
      (''/v/d.json'', ''{''), (''/v/e.txt'', ''B'')]"

definition demo_vault :: Vault where
  "demo_vault =
     \<lparr>v_Config = \<lparr>StoragePath = ''/v'', RetentionDays = 90, MaxSizeMB = 1024,
                   Compression = False\<rparr>,
      Storage = NewStorageBackend ''/v'',
      Policy = NewRetentionPolicy 90 1024\<rparr>"

definition critical_low_risk :: ForensicRecord where
  "critical_low_risk = blank_record\<lparr>Severity := ''critical'', fr_RiskScore := 0.1\<rparr>"

definition low_high_risk :: ForensicRecord where
  "low_high_risk = blank_record\<lparr>Severity := ''low'', fr_RiskScore := 0.99\<rparr>"

section \<open>Properties\<close>

subsection \<open>Risk scoring\<close>

lemma rule_matches_iff: "rule_matches rule threats \<longleftrightarrow> rule \<in> set threats"
  by (induction threats) auto

lemma add_suspicious_eq:
  "add_suspicious name procs score = score + (if name \<in> set procs then 0.4 else 0)"
  by (induction procs) auto

lemma getAIRiskScore_sum: "getAIRiskScore features = weighted_indicator_sum features"
  by (simp add: getAIRiskScore_def weighted_indicator_sum_def add_suspicious_eq
      weight_sensitive_file_def weight_network_def weight_file_access_def
      weight_suspicious_process_def)

lemma getAIRiskScore_nonneg: "0 \<le> getAIRiskScore features"
  by (simp add: getAIRiskScore_sum weighted_indicator_sum_def
      weight_sensitive_file_def weight_network_def weight_file_access_def
      weight_suspicious_process_def)

lemma processEvent_verdict:
  "fst (snd (processEvent fmt now event ep)) =
     (let features = fst (Extract fmt event ep); aiScore = getAIRiskScore features
      in \<lparr>Original = event, Features = features, pe_Timestamp = now,
          RiskScore = (if isKnownThreat event then (if aiScore > 0.95 then aiScore else 0.95)
                       else (if aiScore > 0 then aiScore else 0)),
          Anomaly = (isKnownThreat event \<or> aiScore > 0.75)\<rparr>)"
  by (simp add: processEvent_def Let_def storeForensicData_def split: prod.splits)

text \<open>
  C1: for every event whose priority is \<open>Critical\<close> or \<open>Emergency\<close>, or whose rule
  name is one of the denylisted rule names, the \<open>ProcessedEvent\<close> that \<open>processEvent\<close>
  builds has \<open>Anomaly = true\<close> and a risk score of at least 0.95.
\<close>

theorem known_threat_verdict:
  assumes "Priority event = ''Critical'' \<or> Priority event = ''Emergency''
           \<or> Rule event \<in> set knownThreats"
  shows "Anomaly (fst (snd (processEvent fmt now event ep))) \<and>
         RiskScore (fst (snd (processEvent fmt now event ep))) \<ge> 0.95"
proof -
  from assms have "isKnownThreat event"
    by (auto simp: isKnownThreat_def rule_matches_iff)
  then show ?thesis
    by (simp add: processEvent_verdict Let_def)
qed

theorem known_threat_verdict_witness:
  "Priority critical_event = ''Critical'' \<and>
   Anomaly (fst (snd (processEvent demo_fmt 7 critical_event (NewEventProcessor 1)))) \<and>
   RiskScore (fst (snd (processEvent demo_fmt 7 critical_event (NewEventProcessor 1)))) \<ge> 0.95"
proof -
  have h: "Priority critical_event = ''Critical''"
    by (simp add: critical_event_def blank_event_def)
  then have "Priority critical_event = ''Critical'' \<or> Priority critical_event = ''Emergency''
           \<or> Rule critical_event \<in> set knownThreats" by simp
  from known_threat_verdict [OF this, of demo_fmt 7 "NewEventProcessor 1"] h
  show ?thesis by simp
qed

text \<open>
  C2: the final risk score is the maximum of the rule-based score and the heuristic
  score of the extracted features; the heuristic score is the plain sum of the fixed
  weights of the indicators that hold (for any features, with no clamping), the weight
  of a suspicious process name being the largest; and an event with a denylisted rule
  name whose heuristic score is below 0.95 gets exactly 0.95.
\<close>

theorem composite_score:
  "RiskScore (fst (snd (processEvent fmt now event ep)))
     = max (rule_score event) (getAIRiskScore (fst (Extract fmt event ep)))
   \<and> getAIRiskScore features = weighted_indicator_sum features
   \<and> weight_sensitive_file < weight_suspicious_process
   \<and> weight_network < weight_suspicious_process
   \<and> weight_file_access < weight_suspicious_process
   \<and> (Rule event \<in> set knownThreats \<and> getAIRiskScore (fst (Extract fmt event ep)) < 0.95
        \<longrightarrow> RiskScore (fst (snd (processEvent fmt now event ep))) = 0.95)"
proof -
  let ?ai = "getAIRiskScore (fst (Extract fmt event ep))"
  have nonneg: "0 \<le> ?ai" by (rule getAIRiskScore_nonneg)
  have a: "RiskScore (fst (snd (processEvent fmt now event ep))) = max (rule_score event) ?ai"
    using nonneg by (simp add: processEvent_verdict Let_def rule_score_def max_def)
  have b: "Rule event \<in> set knownThreats \<Longrightarrow> isKnownThreat event"
    by (simp add: isKnownThreat_def rule_matches_iff)
  have c: "Rule event \<in> set knownThreats \<and> ?ai < 0.95
        \<longrightarrow> RiskScore (fst (snd (processEvent fmt now event ep))) = 0.95"
    using b by (auto simp add: processEvent_verdict Let_def)
  show ?thesis using a c
    by (simp add: getAIRiskScore_sum weight_sensitive_file_def weight_network_def
        weight_file_access_def weight_suspicious_process_def)
qed

lemma shell_event_features:
  "fst (Extract demo_fmt shell_event (NewEventProcessor 1)) =
     \<lparr>ProcessName = ''nc'', ProcessFrequency = 1, SyscallCount = Map.empty,
             FileAccessCount = 0, NetworkConnCount = 0, SensitiveFiles = [],
             CommandLine = [], ParentProcess = [], UserID = [],
             TimeWindow = ''0'',
             ContainerID = [],
             bf_Namespace = []\<rparr>"
  by (simp add: Extract_def shell_event_def blank_event_def blank_container_def Let_def
       NewEventProcessor_def updateProcessFrequency_def getProcessFrequency_def map_get_def
       getTimeWindow_def demo_fmt_def show_int_def show_nat.simps digit_char_def)

theorem composite_score_witness:
  "Rule shell_event \<in> set knownThreats \<and>
   getAIRiskScore (fst (Extract demo_fmt shell_event (NewEventProcessor 1))) = 0.4 \<and>
   RiskScore (fst (snd (processEvent demo_fmt 7 shell_event (NewEventProcessor 1)))) = 0.95 \<and>
   getAIRiskScore saturated_features = 1.1"
proof -
  have r: "Rule shell_event \<in> set knownThreats"
    by (simp add: shell_event_def blank_event_def knownThreats_def)
  have s: "getAIRiskScore (fst (Extract demo_fmt shell_event (NewEventProcessor 1))) = 0.4"
    by (simp add: shell_event_features getAIRiskScore_def suspiciousProcesses_def word_sless_alt)
  have lt: "getAIRiskScore (fst (Extract demo_fmt shell_event (NewEventProcessor 1))) < 0.95"
    by (simp add: s)
  have w: "weighted_indicator_sum saturated_features = 1.1"
    by (simp add: weighted_indicator_sum_def saturated_features_def suspiciousProcesses_def
        word_sless_alt weight_sensitive_file_def weight_network_def weight_file_access_def
        weight_suspicious_process_def)
  from composite_score [where fmt = demo_fmt and now = 7 and event = shell_event
      and ep = "NewEventProcessor 1" and features = saturated_features] r lt s w
  show ?thesis by simp
qed

subsection \<open>Feature extraction\<close>

lemma get_after_update:
  "getProcessFrequency (updateProcessFrequency proc ep) proc
     = map_get (processFrequency ep) proc + 1"
  by (simp add: getProcessFrequency_def updateProcessFrequency_def map_get_def)

lemma Extract_raw:
  "Extract fmt event ep =
     (case Fields event of
        None \<Rightarrow> (initial_features fmt event, ep)
      | Some flds \<Rightarrow>
          (case as_string (flds ''proc.name'') of
             None \<Rightarrow> (fill_fields flds (initial_features fmt event), ep)
           | Some proc \<Rightarrow>
               (fill_fields flds
                  ((initial_features fmt event)
                     \<lparr>ProcessName := proc,
                      ProcessFrequency :=
                        getProcessFrequency (updateProcessFrequency proc ep) proc\<rparr>),
                updateProcessFrequency proc ep)))"
proof (cases "Fields event")
  case None
  then show ?thesis by (simp add: Extract_def initial_features_def)
next
  case fields: (Some flds)
  show ?thesis
  proof (cases "as_string (flds ''proc.name'')")
    case None
    show ?thesis
      by (simp only: Extract_def fill_fields_def with_network_def with_file_def with_uid_def
        with_parent_def with_cmdline_def initial_features_def Let_def fields None
        option.case prod.case)
  next
    case (Some proc)
    show ?thesis
      by (simp only: Extract_def fill_fields_def with_network_def with_file_def with_uid_def
        with_parent_def with_cmdline_def initial_features_def Let_def fields Some
        option.case prod.case)
  qed
qed

lemma steps_frequency:
  "with_cmdline flds (f\<lparr>ProcessFrequency := x\<rparr>) = (with_cmdline flds f)\<lparr>ProcessFrequency := x\<rparr>"
  "with_parent flds (f\<lparr>ProcessFrequency := x\<rparr>) = (with_parent flds f)\<lparr>ProcessFrequency := x\<rparr>"
  "with_uid flds (f\<lparr>ProcessFrequency := x\<rparr>) = (with_uid flds f)\<lparr>ProcessFrequency := x\<rparr>"
  "with_file flds (f\<lparr>ProcessFrequency := x\<rparr>) = (with_file flds f)\<lparr>ProcessFrequency := x\<rparr>"
  "with_network flds (f\<lparr>ProcessFrequency := x\<rparr>) = (with_network flds f)\<lparr>ProcessFrequency := x\<rparr>"
  by (simp_all add: with_cmdline_def with_parent_def with_uid_def with_file_def
      with_network_def Let_def split: option.splits)

lemma fill_fields_frequency:
  "fill_fields flds (f\<lparr>ProcessFrequency := x\<rparr>) = (fill_fields flds f)\<lparr>ProcessFrequency := x\<rparr>"
  by (simp add: fill_fields_def steps_frequency)

lemma Extract_steps:
  "Extract fmt event ep =
     (case Fields event of
        None \<Rightarrow> (initial_features fmt event, ep)
      | Some flds \<Rightarrow>
          (case as_string (flds ''proc.name'') of
             None \<Rightarrow> (fill_fields flds (initial_features fmt event), ep)
           | Some proc \<Rightarrow>
               ((fill_fields flds ((initial_features fmt event)\<lparr>ProcessName := proc\<rparr>))
                  \<lparr>ProcessFrequency := map_get (processFrequency ep) proc + 1\<rparr>,
                updateProcessFrequency proc ep)))"
  by (simp only: Extract_raw get_after_update fill_fields_frequency)

lemma steps_ProcessFrequency:
  "ProcessFrequency (with_cmdline flds f) = ProcessFrequency f"
  "ProcessFrequency (with_parent flds f) = ProcessFrequency f"
  "ProcessFrequency (with_uid flds f) = ProcessFrequency f"
  "ProcessFrequency (with_file flds f) = ProcessFrequency f"
  "ProcessFrequency (with_network flds f) = ProcessFrequency f"
  by (simp_all add: with_cmdline_def with_parent_def with_uid_def with_file_def
      with_network_def Let_def split: option.splits)

lemma steps_ProcessName:
  "ProcessName (with_cmdline flds f) = ProcessName f"
  "ProcessName (with_parent flds f) = ProcessName f"
  "ProcessName (with_uid flds f) = ProcessName f"
  "ProcessName (with_file flds f) = ProcessName f"
  "ProcessName (with_network flds f) = ProcessName f"
  by (simp_all add: with_cmdline_def with_parent_def with_uid_def with_file_def
      with_network_def Let_def split: option.splits)

lemma steps_FileAccessCount:
  "FileAccessCount (with_cmdline flds f) = FileAccessCount f"
  "FileAccessCount (with_parent flds f) = FileAccessCount f"
  "FileAccessCount (with_uid flds f) = FileAccessCount f"
  "FileAccessCount (with_file flds f) =
     FileAccessCount f + (if as_string (flds ''fd.name'') = None then 0 else 1)"
  "FileAccessCount (with_network flds f) = FileAccessCount f"
  by (simp_all add: with_cmdline_def with_parent_def with_uid_def with_file_def
      with_network_def Let_def split: option.splits)

lemma steps_NetworkConnCount:
  "NetworkConnCount (with_cmdline flds f) = NetworkConnCount f"
  "NetworkConnCount (with_parent flds f) = NetworkConnCount f"
  "NetworkConnCount (with_uid flds f) = NetworkConnCount f"
  "NetworkConnCount (with_file flds f) = NetworkConnCount f"
  "NetworkConnCount (with_network flds f) =
     NetworkConnCount f + (if as_string (flds ''fd.sip'') = None then 0 else 1)"
  by (simp_all add: with_cmdline_def with_parent_def with_uid_def with_file_def
      with_network_def Let_def split: option.splits)

lemma steps_SensitiveFiles:
  "SensitiveFiles (with_cmdline flds f) = SensitiveFiles f"
  "SensitiveFiles (with_parent flds f) = SensitiveFiles f"
  "SensitiveFiles (with_uid flds f) = SensitiveFiles f"
  "SensitiveFiles (with_file flds f) =
     SensitiveFiles f @
       (case as_string (flds ''fd.name'') of
          None \<Rightarrow> []
        | Some fd_name \<Rightarrow> if isSensitiveFile fd_name then [fd_name] else [])"
  "SensitiveFiles (with_network flds f) = SensitiveFiles f"
  by (simp_all add: with_cmdline_def with_parent_def with_uid_def with_file_def
      with_network_def Let_def split: option.splits)

lemma Extract_counts:
  "FileAccessCount (fst (Extract fmt event ep)) \<in> {0, 1}"
  "NetworkConnCount (fst (Extract fmt event ep)) \<in> {0, 1}"
  by (simp_all add: Extract_steps fill_fields_def steps_FileAccessCount
      steps_NetworkConnCount initial_features_def split: option.splits)

lemma Extract_state:
  "Metrics (snd (Extract fmt event ep)) = Metrics ep"
  "Stdout (snd (Extract fmt event ep)) = Stdout ep"
  "Workers (snd (Extract fmt event ep)) = Workers ep"
  by (simp_all add: Extract_steps updateProcessFrequency_def split: option.splits)

lemma Extract_table:
  "processFrequency (snd (Extract fmt event ep)) =
     (case proc_name_of event of
        None \<Rightarrow> processFrequency ep
      | Some proc \<Rightarrow> (processFrequency ep)(proc \<mapsto> map_get (processFrequency ep) proc + 1))"
  by (simp add: Extract_steps updateProcessFrequency_def proc_name_of_def split: option.splits)

text \<open>
  C7, as the code has it: extracting twice from the same event, with no other call in
  between, gives the same features except \<open>ProcessFrequency\<close>, which is one more the
  second time, when the event's \<open>proc.name\<close> field is a string; for an event without
  such a field both results are the same in every field (\<open>ProcessFrequency\<close> is 0 both
  times).
\<close>

theorem extract_twice:
  "fst (Extract fmt event (snd (Extract fmt event ep))) =
     (case proc_name_of event of
        None \<Rightarrow> fst (Extract fmt event ep)
      | Some proc \<Rightarrow>
          (fst (Extract fmt event ep))
            \<lparr>ProcessFrequency := ProcessFrequency (fst (Extract fmt event ep)) + 1\<rparr>)"
proof (cases "Fields event")
  case None
  then show ?thesis by (simp add: Extract_steps proc_name_of_def)
next
  case fields: (Some flds)
  show ?thesis
  proof (cases "as_string (flds ''proc.name'')")
    case None
    with fields show ?thesis by (simp add: Extract_steps proc_name_of_def)
  next
    case (Some proc)
    have "map_get (processFrequency (updateProcessFrequency proc ep)) proc
            = map_get (processFrequency ep) proc + 1"
      by (simp add: updateProcessFrequency_def map_get_def)
    with fields Some show ?thesis
      by (simp add: Extract_steps proc_name_of_def)
  qed
qed

theorem extract_twice_witness:
  "proc_name_of shell_event = Some ''nc'' \<and>
   ProcessFrequency (fst (Extract demo_fmt shell_event (NewEventProcessor 1))) = 1 \<and>
   fst (Extract demo_fmt shell_event (snd (Extract demo_fmt shell_event (NewEventProcessor 1))))
     = (fst (Extract demo_fmt shell_event (NewEventProcessor 1)))\<lparr>ProcessFrequency := 2\<rparr>"
proof -
  have p: "proc_name_of shell_event = Some ''nc''"
    by (simp add: proc_name_of_def shell_event_def blank_event_def)
  have f: "ProcessFrequency (fst (Extract demo_fmt shell_event (NewEventProcessor 1))) = 1"
    by (simp add: Extract_steps shell_event_def blank_event_def NewEventProcessor_def
        map_get_def)
  from extract_twice [of demo_fmt shell_event "NewEventProcessor 1"] p f
  show ?thesis by simp
qed

text \<open>
  For an event with no fields the frequency does not increase: it is 0 after both calls.
\<close>

theorem no_process_name_no_increase:
  "ProcessFrequency
     (fst (Extract demo_fmt critical_event
             (snd (Extract demo_fmt critical_event (NewEventProcessor 1)))))
   \<noteq> ProcessFrequency (fst (Extract demo_fmt critical_event (NewEventProcessor 1))) + 1"
  by (simp add: Extract_steps critical_event_def blank_event_def initial_features_def)

subsection \<open>Metrics\<close>

lemma small_counts:
  "\<not> (50::64 word) <s 0" "\<not> (50::64 word) <s 1" "\<not> (10::64 word) <s 0" "\<not> (10::64 word) <s 1"
  by (simp_all add: word_sless_alt)

lemma extracted_score_bound: "getAIRiskScore (fst (Extract fmt event ep)) \<le> 0.7"
proof -
  have "FileAccessCount (fst (Extract fmt event ep)) \<in> {0, 1}"
    and "NetworkConnCount (fst (Extract fmt event ep)) \<in> {0, 1}"
    by (rule Extract_counts)+
  then show ?thesis
    by (auto simp: getAIRiskScore_def add_suspicious_eq small_counts)
qed

lemma sensitive_path_score:
  assumes "Fields event = Some flds" and "flds ''fd.name'' = Some (JString path)"
    and "isSensitiveFile path"
  shows "0.3 \<le> getAIRiskScore (fst (Extract fmt event ep))"
proof -
  have "SensitiveFiles (fst (Extract fmt event ep)) \<noteq> []"
    using assms
    by (simp add: Extract_steps fill_fields_def steps_SensitiveFiles split: option.splits)
  then show ?thesis
    by (simp add: getAIRiskScore_sum weighted_indicator_sum_def weight_sensitive_file_def
        weight_network_def weight_file_access_def weight_suspicious_process_def)
qed

lemma processEvent_state:
  "processEvent fmt now event ep =
     (None, fst (snd (processEvent fmt now event ep)),
      (if isKnownThreat event
       then print_line (anomaly_line event) (add_anomaly (snd (Extract fmt event ep)))
       else snd (Extract fmt event ep)))"
proof -
  have "\<not> getAIRiskScore (fst (Extract fmt event ep)) > 0.75"
       "\<not> getAIRiskScore (fst (Extract fmt event ep)) > 0.95"
    using extracted_score_bound [of fmt event ep] by simp_all
  then show ?thesis
    by (simp add: processEvent_def Let_def case_prod_beta storeForensicData_def
        print_line_def anomaly_line_def add_anomaly_def)
qed

lemma handle_event_state:
  "handle_event fmt wid now event ep =
     add_processed
       (if isKnownThreat event
        then print_line (anomaly_line event) (add_anomaly (snd (Extract fmt event (add_total ep))))
        else snd (Extract fmt event (add_total ep)))"
  by (subst handle_event_def, subst processEvent_state) simp

lemma handle_event_Metrics:
  "Metrics (handle_event fmt wid now event ep) = counted (Metrics ep) [event]"
  by (simp add: handle_event_state add_processed_def print_line_def add_anomaly_def
      Extract_state add_total_def counted_def)

lemma handle_event_Stdout:
  "Stdout (handle_event fmt wid now event ep) =
     Stdout ep @ (if isKnownThreat event then [anomaly_line event] else [])"
  by (simp add: handle_event_state add_processed_def print_line_def add_anomaly_def
      Extract_state add_total_def)

lemma counted_Cons: "counted (counted m [e]) es = counted m (e # es)"
  by (simp add: counted_def)

lemma worker_loop_Metrics:
  "Metrics (snd (worker_loop fmt wid sel ep)) = counted (Metrics ep) (received sel)"
proof (induction sel arbitrary: ep)
  case Nil
  show ?case by (simp add: counted_def)
next
  case (Cons s sel)
  show ?case
    by (cases s) (simp_all add: Cons.IH handle_event_Metrics counted_Cons print_line_def,
        simp_all add: counted_def)
qed

lemma length_received: "length (received sel) \<le> length sel"
  by (induction sel rule: received.induct) auto

lemma received_take:
  "j \<le> k \<Longrightarrow> \<exists>ys. received (take k sel) = received (take j sel) @ ys"
proof (induction sel arbitrary: j k)
  case Nil
  show ?case by simp
next
  case (Cons s sel)
  show ?case
  proof (cases j)
    case 0
    then show ?thesis by simp
  next
    case (Suc j')
    with Cons.prems obtain k' where k: "k = Suc k'" and le: "j' \<le> k'"
      by (cases k) auto
    from Cons.IH [OF le] obtain ys where "received (take k' sel) = received (take j' sel) @ ys"
      by blast
    then show ?thesis
      by (cases s) (simp_all add: Suc k)
  qed
qed

lemma received_take_length:
  assumes "j \<le> k"
  shows "length (received (take j sel)) \<le> length (received (take k sel))"
    and "length (filter P (received (take j sel))) \<le> length (filter P (received (take k sel)))"
proof -
  from received_take [OF assms] obtain ys
    where "received (take k sel) = received (take j sel) @ ys" by blast
  then show "length (received (take j sel)) \<le> length (received (take k sel))"
    and "length (filter P (received (take j sel))) \<le> length (filter P (received (take k sel)))"
    by simp_all
qed

lemma sint_add_nat:
  fixes w :: "64 word"
  assumes "sint w + int n < 2 ^ 63"
  shows "sint (w + of_nat n) = sint w + int n"
proof -
  have "w + of_nat n = word_of_int (sint w + int n)"
    by simp
  then have "sint (w + of_nat n) = signed_take_bit 63 (sint w + int n)"
    by (simp only: sint_sbintrunc') simp
  moreover have "- (2 ^ 63) \<le> sint w + int n"
    using sint_ge [of w] by simp
  ultimately show ?thesis
    using assms by (simp add: signed_take_bit_int_eq_self)
qed

lemma sle_add_nats:
  fixes w :: "64 word"
  assumes "sint w + int n < 2 ^ 63" and "a \<le> b" and "b \<le> n"
  shows "w + of_nat a \<le>s w + of_nat b"
proof -
  from assms have "sint w + int a < 2 ^ 63" and "sint w + int b < 2 ^ 63" by simp_all
  then have "sint (w + of_nat a) = sint w + int a" and "sint (w + of_nat b) = sint w + int b"
    by (simp_all add: sint_add_nat)
  with assms(2) show ?thesis by (simp add: word_sle_eq)
qed

lemma demo_events:
  "isKnownThreat critical_event" "\<not> isKnownThreat shadow_event" "\<not> isKnownThreat benign_event"
  by (simp_all add: isKnownThreat_def critical_event_def shadow_event_def benign_event_def
      blank_event_def knownThreats_def)

text \<open>
  C10: a worker starts where \<open>TotalEvents = ProcessedEvents + ErrorCount\<close> holds and
  goes through its observations \<open>sel\<close>, handling the events it receives one after the
  other. After any number \<open>k\<close> of them the equation holds again, and each of the four
  counters is at least what it was after any smaller number \<open>j\<close> (the counters are 64-bit
  and signed: the run is short enough for them not to wrap). Handling one event adds one
  to \<open>TotalEvents\<close> and one to exactly one of \<open>ProcessedEvents\<close> and \<open>ErrorCount\<close>.
\<close>

theorem worker_metrics_invariant:
  assumes inv: "TotalEvents (Metrics ep) = ProcessedEvents (Metrics ep) + ErrorCount (Metrics ep)"
    and total: "sint (TotalEvents (Metrics ep)) + int (length sel) < 2 ^ 63"
    and processed: "sint (ProcessedEvents (Metrics ep)) + int (length sel) < 2 ^ 63"
    and anomalies: "sint (AnomaliesDetected (Metrics ep)) + int (length sel) < 2 ^ 63"
    and le: "j \<le> k"
  shows "TotalEvents (metrics_after fmt wid sel k ep)
           = ProcessedEvents (metrics_after fmt wid sel k ep)
             + ErrorCount (metrics_after fmt wid sel k ep)
       \<and> TotalEvents (metrics_after fmt wid sel j ep)
            \<le>s TotalEvents (metrics_after fmt wid sel k ep)
       \<and> ProcessedEvents (metrics_after fmt wid sel j ep)
            \<le>s ProcessedEvents (metrics_after fmt wid sel k ep)
       \<and> AnomaliesDetected (metrics_after fmt wid sel j ep)
            \<le>s AnomaliesDetected (metrics_after fmt wid sel k ep)
       \<and> ErrorCount (metrics_after fmt wid sel j ep)
            \<le>s ErrorCount (metrics_after fmt wid sel k ep)
       \<and> TotalEvents (Metrics (handle_event fmt wid now event ep))
            = TotalEvents (Metrics ep) + 1
       \<and> (ProcessedEvents (Metrics (handle_event fmt wid now event ep))
              = ProcessedEvents (Metrics ep) + 1
            \<and> ErrorCount (Metrics (handle_event fmt wid now event ep)) = ErrorCount (Metrics ep)
          \<or> ProcessedEvents (Metrics (handle_event fmt wid now event ep))
              = ProcessedEvents (Metrics ep)
            \<and> ErrorCount (Metrics (handle_event fmt wid now event ep))
              = ErrorCount (Metrics ep) + 1)"
proof -
  let ?rj = "received (take j sel)" and ?rk = "received (take k sel)"
  have mj: "metrics_after fmt wid sel j ep = counted (Metrics ep) ?rj"
    and mk: "metrics_after fmt wid sel k ep = counted (Metrics ep) ?rk"
    by (simp_all add: metrics_after_def worker_loop_Metrics)
  have n: "length ?rk \<le> length sel"
    using length_received [of "take k sel"] by simp
  have t: "length (filter isKnownThreat ?rk) \<le> length sel"
    by (rule order_trans [OF length_filter_le n])
  have mono: "length ?rj \<le> length ?rk"
    "length (filter isKnownThreat ?rj) \<le> length (filter isKnownThreat ?rk)"
    by (rule received_take_length(1) [OF le], rule received_take_length(2) [OF le])
  have a: "TotalEvents (counted (Metrics ep) ?rk)
             = ProcessedEvents (counted (Metrics ep) ?rk) + ErrorCount (counted (Metrics ep) ?rk)"
    using inv by (simp add: counted_def)
  have b: "TotalEvents (counted (Metrics ep) ?rj) \<le>s TotalEvents (counted (Metrics ep) ?rk)"
    using sle_add_nats [OF total mono(1) n] by (simp add: counted_def)
  have c: "ProcessedEvents (counted (Metrics ep) ?rj)
             \<le>s ProcessedEvents (counted (Metrics ep) ?rk)"
    using sle_add_nats [OF processed mono(1) n] by (simp add: counted_def)
  have d: "AnomaliesDetected (counted (Metrics ep) ?rj)
             \<le>s AnomaliesDetected (counted (Metrics ep) ?rk)"
    using sle_add_nats [OF anomalies mono(2) t] by (simp add: counted_def)
  have e: "ErrorCount (counted (Metrics ep) ?rj) \<le>s ErrorCount (counted (Metrics ep) ?rk)"
    by (simp add: counted_def)
  have f: "Metrics (handle_event fmt wid now event ep) = counted (Metrics ep) [event]"
    by (rule handle_event_Metrics)
  show ?thesis
    unfolding mj mk f using a b c d e by (simp add: counted_def)
qed

theorem worker_metrics_invariant_witness:
  "metrics_after demo_fmt 0 three_selects 1 (NewEventProcessor 1)
     = \<lparr>TotalEvents = 1, ProcessedEvents = 1, AnomaliesDetected = 1, ErrorCount = 0\<rparr>
   \<and> metrics_after demo_fmt 0 three_selects 3 (NewEventProcessor 1)
     = \<lparr>TotalEvents = 3, ProcessedEvents = 3, AnomaliesDetected = 1, ErrorCount = 0\<rparr>
   \<and> TotalEvents (metrics_after demo_fmt 0 three_selects 3 (NewEventProcessor 1))
       = ProcessedEvents (metrics_after demo_fmt 0 three_selects 3 (NewEventProcessor 1))
         + ErrorCount (metrics_after demo_fmt 0 three_selects 3 (NewEventProcessor 1))
   \<and> TotalEvents (metrics_after demo_fmt 0 three_selects 1 (NewEventProcessor 1))
        \<le>s TotalEvents (metrics_after demo_fmt 0 three_selects 3 (NewEventProcessor 1))"
proof -
  have z: "Metrics (NewEventProcessor 1)
             = \<lparr>TotalEvents = 0, ProcessedEvents = 0, AnomaliesDetected = 0, ErrorCount = 0\<rparr>"
    by (simp add: NewEventProcessor_def)
  have l: "length three_selects = 3" by (simp add: three_selects_def)
  have inv: "TotalEvents (Metrics (NewEventProcessor 1))
      = ProcessedEvents (Metrics (NewEventProcessor 1)) + ErrorCount (Metrics (NewEventProcessor 1))"
    by (simp add: z)
  have r: "sint (TotalEvents (Metrics (NewEventProcessor 1))) + int (length three_selects) < 2 ^ 63"
    "sint (ProcessedEvents (Metrics (NewEventProcessor 1))) + int (length three_selects) < 2 ^ 63"
    "sint (AnomaliesDetected (Metrics (NewEventProcessor 1))) + int (length three_selects) < 2 ^ 63"
    by (simp_all add: z l)
  have le: "(1::nat) \<le> 3" by simp
  have v1: "metrics_after demo_fmt 0 three_selects 1 (NewEventProcessor 1)
     = \<lparr>TotalEvents = 1, ProcessedEvents = 1, AnomaliesDetected = 1, ErrorCount = 0\<rparr>"
    by (simp only: metrics_after_def worker_loop_Metrics)
      (simp add: three_selects_def counted_def z demo_events)
  have v3: "metrics_after demo_fmt 0 three_selects 3 (NewEventProcessor 1)
     = \<lparr>TotalEvents = 3, ProcessedEvents = 3, AnomaliesDetected = 1, ErrorCount = 0\<rparr>"
    by (simp only: metrics_after_def worker_loop_Metrics)
      (simp add: three_selects_def counted_def z demo_events)
  from worker_metrics_invariant [OF inv r le, of demo_fmt 0] v1 v3
  show ?thesis by simp
qed

subsection \<open>Backpressure\<close>

text \<open>
  C5, as the code has it: when the queue is open and its buffer is full, the ingestion
  loop's iteration on a line that decodes and passes the filter takes the \<open>default\<close>
  branch and goes on to the next iteration: the queue keeps the events it holds, the new
  event is dropped, a warning is printed, and no counter changes (there is no drop
  counter).
\<close>

theorem full_queue_drops_newest:
  assumes parse: "unmarshal line = Inr event"
    and pass: "shouldProcessEvent m event"
    and opn: "\<not> chan_closed (EventChan m)"
    and buffered: "0 < chan_cap (EventChan m)"
    and full: "length (chan_buf (EventChan m)) = chan_cap (EventChan m)"
  shows "consume_line unmarshal line m
           = Inr (m\<lparr>Processor := print_line ChannelFullWarning (Processor m)\<rparr>)
       \<and> consume_loop unmarshal (ScanLine line # rest) m
           = consume_loop unmarshal rest
               (m\<lparr>Processor := print_line ChannelFullWarning (Processor m)\<rparr>)
       \<and> EventChan (m\<lparr>Processor := print_line ChannelFullWarning (Processor m)\<rparr>) = EventChan m
       \<and> Metrics (print_line ChannelFullWarning (Processor m)) = Metrics (Processor m)
       \<and> Stdout (print_line ChannelFullWarning (Processor m))
           = Stdout (Processor m) @ [ChannelFullWarning]"
proof -
  have "consume_line unmarshal line m
           = Inr (m\<lparr>Processor := print_line ChannelFullWarning (Processor m)\<rparr>)"
    using assms by (simp add: consume_line_def parseEvent_def select_send_def Let_def)
  then show ?thesis by (simp add: print_line_def)
qed

lemma demo_monitor_accepts: "shouldProcessEvent (demo_monitor n q) event"
  by (simp add: shouldProcessEvent_def demo_monitor_def demo_config_def)

lemma demo_lines:
  "demo_unmarshal ''c'' = Inr critical_event" "demo_unmarshal ''s'' = Inr shadow_event"
  "demo_unmarshal ''b'' = Inr benign_event"
  by (simp_all add: demo_unmarshal_def)

theorem full_queue_drops_newest_witness:
  "consume_line demo_unmarshal ''s'' (demo_monitor 2 [critical_event, benign_event])
     = Inr ((demo_monitor 2 [critical_event, benign_event])
              \<lparr>Processor := print_line ChannelFullWarning (NewEventProcessor 1)\<rparr>)
   \<and> chan_buf (EventChan (demo_monitor 2 [critical_event, benign_event]))
     = [critical_event, benign_event]"
proof -
  let ?m = "demo_monitor 2 [critical_event, benign_event]"
  have a: "demo_unmarshal ''s'' = Inr shadow_event" by (simp add: demo_unmarshal_def)
  have b: "\<not> chan_closed (EventChan ?m)" "0 < chan_cap (EventChan ?m)"
    "length (chan_buf (EventChan ?m)) = chan_cap (EventChan ?m)"
    by (simp_all add: demo_monitor_def)
  have c: "Processor ?m = NewEventProcessor 1" "chan_buf (EventChan ?m) = [critical_event, benign_event]"
    by (simp_all add: demo_monitor_def)
  have d: "shouldProcessEvent ?m shadow_event" by (rule demo_monitor_accepts)
  from full_queue_drops_newest [of demo_unmarshal "''s''" shadow_event ?m, OF a d b] c
  show ?thesis by simp
qed

text \<open>
  On a full queue of capacity 2 the dropped event changes no counter: the metrics
  after the iteration are the metrics before it.
\<close>

theorem full_queue_counts_nothing:
  "metrics_of (consume_line demo_unmarshal ''s'' (demo_monitor 2 [critical_event, benign_event]))
     = Some (Metrics (Processor (demo_monitor 2 [critical_event, benign_event])))
   \<and> length (chan_buf (EventChan (demo_monitor 2 [critical_event, benign_event])))
     = chan_cap (EventChan (demo_monitor 2 [critical_event, benign_event]))"
  by (simp add: metrics_of_def consume_line_def parseEvent_def demo_unmarshal_def
      demo_monitor_accepts select_send_def Let_def print_line_def)
    (simp add: demo_monitor_def)

subsection \<open>The pipeline\<close>

lemma accepted_Config:
  "Config m' = Config m \<Longrightarrow> accepted unmarshal m' ls = accepted unmarshal m ls"
  by (induction ls) (auto simp: shouldProcessEvent_def split: sum.splits)

lemma anomaly_line_is: "is_anomaly_line (anomaly_line event)"
  by (simp add: anomaly_line_def)

text \<open>
  While the queue has room for every accepted event, a run handles a prefix of the
  events already queued followed by the accepted ones, in order, and leaves the rest in
  the queue.
\<close>

lemma run_prefix:
  assumes "\<not> chan_closed (EventChan m)"
    and "length (chan_buf (EventChan m)) + length (accepted unmarshal m (ingested sched))
           \<le> chan_cap (EventChan m)"
  shows "\<exists>m' k. run fmt unmarshal sched m = Inr m'
           \<and> chan_buf (EventChan m')
               = drop k (chan_buf (EventChan m) @ accepted unmarshal m (ingested sched))
           \<and> k \<le> length (chan_buf (EventChan m) @ accepted unmarshal m (ingested sched))
           \<and> Metrics (Processor m')
               = counted (Metrics (Processor m))
                   (take k (chan_buf (EventChan m) @ accepted unmarshal m (ingested sched)))
           \<and> filter is_anomaly_line (Stdout (Processor m'))
               = filter is_anomaly_line (Stdout (Processor m))
                 @ map anomaly_line (filter isKnownThreat
                     (take k (chan_buf (EventChan m) @ accepted unmarshal m (ingested sched))))"
  using assms
proof (induction sched arbitrary: m)
  case Nil
  show ?case
    by (rule exI [of _ m], rule exI [of _ 0]) (simp add: counted_def)
next
  case (Cons a sched)
  show ?case
  proof (cases a)
    case (Ingest line)
    show ?thesis
    proof (cases "unmarshal line")
      case (Inl err)
      let ?m1 = "m\<lparr>Processor := print_line (ParseWarning err) (Processor m)\<rparr>"
      have step: "consume_line unmarshal line m = Inr ?m1"
        by (simp add: consume_line_def parseEvent_def Inl)
      have acc: "accepted unmarshal ?m1 (ingested sched) = accepted unmarshal m (ingested (a # sched))"
        by (simp add: Ingest Inl accepted_Config [of ?m1 m])
      have "\<not> chan_closed (EventChan ?m1)" using Cons.prems by simp
      moreover have "length (chan_buf (EventChan ?m1)) + length (accepted unmarshal ?m1 (ingested sched))
           \<le> chan_cap (EventChan ?m1)"
        using Cons.prems acc by simp
      ultimately obtain m' k where
        "run fmt unmarshal sched ?m1 = Inr m'"
        "chan_buf (EventChan m')
               = drop k (chan_buf (EventChan ?m1) @ accepted unmarshal ?m1 (ingested sched))"
        "k \<le> length (chan_buf (EventChan ?m1) @ accepted unmarshal ?m1 (ingested sched))"
        "Metrics (Processor m')
               = counted (Metrics (Processor ?m1))
                   (take k (chan_buf (EventChan ?m1) @ accepted unmarshal ?m1 (ingested sched)))"
        "filter is_anomaly_line (Stdout (Processor m'))
               = filter is_anomaly_line (Stdout (Processor ?m1))
                 @ map anomaly_line (filter isKnownThreat
                     (take k (chan_buf (EventChan ?m1) @ accepted unmarshal ?m1 (ingested sched))))"
        using Cons.IH [of ?m1] by blast
      then have "run fmt unmarshal (a # sched) m = Inr m'
           \<and> chan_buf (EventChan m')
               = drop k (chan_buf (EventChan m) @ accepted unmarshal m (ingested (a # sched)))
           \<and> k \<le> length (chan_buf (EventChan m) @ accepted unmarshal m (ingested (a # sched)))
           \<and> Metrics (Processor m')
               = counted (Metrics (Processor m))
                   (take k (chan_buf (EventChan m) @ accepted unmarshal m (ingested (a # sched))))
           \<and> filter is_anomaly_line (Stdout (Processor m'))
               = filter is_anomaly_line (Stdout (Processor m))
                 @ map anomaly_line (filter isKnownThreat
                     (take k (chan_buf (EventChan m) @ accepted unmarshal m (ingested (a # sched)))))"
        unfolding acc using step by (simp add: Ingest print_line_def)
      then show ?thesis by blast
    next
      case (Inr event)
      show ?thesis
      proof (cases "shouldProcessEvent m event")
        case False
        have step: "consume_line unmarshal line m = Inr m"
          by (simp add: consume_line_def parseEvent_def Inr False)
        have acc: "accepted unmarshal m (ingested (a # sched)) = accepted unmarshal m (ingested sched)"
          by (simp add: Ingest Inr False)
        from Cons.prems have "\<not> chan_closed (EventChan m)"
          "length (chan_buf (EventChan m)) + length (accepted unmarshal m (ingested sched))
             \<le> chan_cap (EventChan m)"
          by (simp_all add: acc)
        from Cons.IH [OF this] show ?thesis
          unfolding acc using step by (simp add: Ingest)
      next
        case True
        let ?m1 = "m\<lparr>EventChan := (EventChan m)\<lparr>chan_buf := chan_buf (EventChan m) @ [event]\<rparr>\<rparr>"
        have acc: "accepted unmarshal m (ingested (a # sched))
                     = event # accepted unmarshal m (ingested sched)"
          by (simp add: Ingest Inr True)
        have acc1: "accepted unmarshal ?m1 (ingested sched) = accepted unmarshal m (ingested sched)"
          by (simp add: accepted_Config [of ?m1 m])
        have room: "length (chan_buf (EventChan m)) < chan_cap (EventChan m)"
          using Cons.prems(2) by (simp add: acc)
        have step: "consume_line unmarshal line m = Inr ?m1"
          using Cons.prems(1) room
          by (simp add: consume_line_def parseEvent_def Inr True select_send_def Let_def)
        have "\<not> chan_closed (EventChan ?m1)" using Cons.prems by simp
        moreover have "length (chan_buf (EventChan ?m1))
              + length (accepted unmarshal ?m1 (ingested sched)) \<le> chan_cap (EventChan ?m1)"
          using Cons.prems(2) by (simp add: acc acc1)
        ultimately have "\<exists>m' k. run fmt unmarshal sched ?m1 = Inr m'
           \<and> chan_buf (EventChan m')
               = drop k (chan_buf (EventChan ?m1) @ accepted unmarshal ?m1 (ingested sched))
           \<and> k \<le> length (chan_buf (EventChan ?m1) @ accepted unmarshal ?m1 (ingested sched))
           \<and> Metrics (Processor m')
               = counted (Metrics (Processor ?m1))
                   (take k (chan_buf (EventChan ?m1) @ accepted unmarshal ?m1 (ingested sched)))
           \<and> filter is_anomaly_line (Stdout (Processor m'))
               = filter is_anomaly_line (Stdout (Processor ?m1))
                 @ map anomaly_line (filter isKnownThreat
                     (take k (chan_buf (EventChan ?m1) @ accepted unmarshal ?m1 (ingested sched))))"
          by (rule Cons.IH)
        then show ?thesis
          unfolding acc acc1 using step by (simp add: Ingest)
      qed
    qed
  next
    case (Work wid now)
    show ?thesis
    proof (cases "chan_buf (EventChan m)")
      case Nil
      have step: "receive_step fmt wid now m = m"
        by (simp add: receive_step_def Nil)
      have acc: "accepted unmarshal m (ingested (a # sched)) = accepted unmarshal m (ingested sched)"
        by (simp add: Work)
      from Cons.prems have "\<not> chan_closed (EventChan m)"
          "length (chan_buf (EventChan m)) + length (accepted unmarshal m (ingested sched))
             \<le> chan_cap (EventChan m)"
        by (simp_all add: acc)
      from Cons.IH [OF this] show ?thesis
        unfolding acc by (simp add: Work step)
    next
      case (Cons event queued)
      let ?m1 = "m\<lparr>EventChan := (EventChan m)\<lparr>chan_buf := queued\<rparr>,
                    Processor := handle_event fmt wid now event (Processor m)\<rparr>"
      let ?acc = "accepted unmarshal m (ingested sched)"
      have step: "receive_step fmt wid now m = ?m1"
        by (simp add: receive_step_def Cons)
      have acc: "accepted unmarshal m (ingested (a # sched)) = ?acc"
        by (simp add: Work)
      have acc1: "accepted unmarshal ?m1 (ingested sched) = ?acc"
        by (simp add: accepted_Config [of ?m1 m])
      have "\<not> chan_closed (EventChan ?m1)" using Cons.prems by simp
      moreover have "length (chan_buf (EventChan ?m1))
              + length (accepted unmarshal ?m1 (ingested sched)) \<le> chan_cap (EventChan ?m1)"
        using Cons.prems(2) by (simp add: acc acc1 Cons)
      ultimately obtain m' k where r:
        "run fmt unmarshal sched ?m1 = Inr m'"
        "chan_buf (EventChan m')
               = drop k (chan_buf (EventChan ?m1) @ accepted unmarshal ?m1 (ingested sched))"
        "k \<le> length (chan_buf (EventChan ?m1) @ accepted unmarshal ?m1 (ingested sched))"
        "Metrics (Processor m')
               = counted (Metrics (Processor ?m1))
                   (take k (chan_buf (EventChan ?m1) @ accepted unmarshal ?m1 (ingested sched)))"
        "filter is_anomaly_line (Stdout (Processor m'))
               = filter is_anomaly_line (Stdout (Processor ?m1))
                 @ map anomaly_line (filter isKnownThreat
                     (take k (chan_buf (EventChan ?m1) @ accepted unmarshal ?m1 (ingested sched))))"
        using Cons.IH [of ?m1] by blast
      have "run fmt unmarshal (a # sched) m = Inr m'
           \<and> chan_buf (EventChan m')
               = drop (Suc k) (chan_buf (EventChan m) @ accepted unmarshal m (ingested (a # sched)))
           \<and> Suc k \<le> length (chan_buf (EventChan m) @ accepted unmarshal m (ingested (a # sched)))
           \<and> Metrics (Processor m')
               = counted (Metrics (Processor m))
                   (take (Suc k) (chan_buf (EventChan m) @ accepted unmarshal m (ingested (a # sched))))
           \<and> filter is_anomaly_line (Stdout (Processor m'))
               = filter is_anomaly_line (Stdout (Processor m))
                 @ map anomaly_line (filter isKnownThreat
                     (take (Suc k) (chan_buf (EventChan m) @ accepted unmarshal m (ingested (a # sched)))))"
        using r unfolding acc acc1
        by (simp add: Work step Cons handle_event_Metrics counted_Cons handle_event_Stdout
            anomaly_line_is)
      then show ?thesis by blast
    qed
  qed
qed

lemma NewMonitor_10:
  assumes "BufferSize cfg = 10" and "NewMonitor cfg = Inr m0"
  shows "chan_cap (EventChan m0) = 10" "chan_buf (EventChan m0) = []"
    "\<not> chan_closed (EventChan m0)" "Config m0 = cfg"
    "Metrics (Processor m0)
       = \<lparr>TotalEvents = 0, ProcessedEvents = 0, AnomaliesDetected = 0, ErrorCount = 0\<rparr>"
    "Stdout (Processor m0) = []"
  using assms
  by (auto simp: NewMonitor_def make_chan_def word_sless_alt NewEventProcessor_def)

text \<open>
  C6, as the code has it: with one worker and a queue of capacity 10, after the three
  events (one of priority \<open>Critical\<close>, one whose \<open>fd.name\<close> contains \<open>/etc/shadow\<close>, one
  that matches no rule) have been ingested and handled, in any interleaving of the
  ingestion loop and the worker, \<open>TotalEvents\<close> and \<open>ProcessedEvents\<close> are 3 and
  \<open>ErrorCount\<close> is 0; \<open>AnomaliesDetected\<close> counts the events the rule-based check
  matches: 1, or 2 when the second event matches it too. The sensitive path gives the
  second event a risk score of at least 0.3, which alone does not make it an anomaly.
  An anomaly is only printed, one line for each: no forensic record is stored.
\<close>

theorem three_event_scenario:
  assumes cfg: "BufferSize cfg = 10" "mc_Workers cfg = 1" "mc_Namespace cfg = []"
      "Deployment cfg = []"
    and start: "NewMonitor cfg = Inr m0"
    and lines: "ingested sched = [l1, l2, l3]"
    and parse: "unmarshal l1 = Inr e1" "unmarshal l2 = Inr e2" "unmarshal l3 = Inr e3"
    and e1: "Priority e1 = ''Critical''"
    and e2: "Fields e2 = Some flds" "flds ''fd.name'' = Some (JString path)"
      "contains path ''/etc/shadow''"
    and e3: "\<not> isKnownThreat e3"
  shows "\<exists>m. run fmt unmarshal sched m0 = Inr m
           \<and> (chan_buf (EventChan m) = [] \<longrightarrow>
                Metrics (Processor m)
                  = \<lparr>TotalEvents = 3, ProcessedEvents = 3,
                     AnomaliesDetected = (if isKnownThreat e2 then 2 else 1), ErrorCount = 0\<rparr>
                \<and> filter is_anomaly_line (Stdout (Processor m))
                  = anomaly_line e1 # (if isKnownThreat e2 then [anomaly_line e2] else []))
           \<and> Anomaly (fst (snd (processEvent fmt now e2 ep))) = isKnownThreat e2
           \<and> 0.3 \<le> RiskScore (fst (snd (processEvent fmt now e2 ep)))"
proof -
  note m0 = NewMonitor_10 [OF cfg(1) start]
  have pass: "shouldProcessEvent m0 e" for e
    by (simp add: shouldProcessEvent_def m0 cfg)
  have acc: "accepted unmarshal m0 (ingested sched) = [e1, e2, e3]"
    by (simp add: lines parse pass)
  have k1: "isKnownThreat e1" by (simp add: isKnownThreat_def e1)
  have "\<not> chan_closed (EventChan m0)"
    and "length (chan_buf (EventChan m0)) + length (accepted unmarshal m0 (ingested sched))
           \<le> chan_cap (EventChan m0)"
    by (simp_all add: m0 acc)
  from run_prefix [OF this, of fmt] obtain m k where r:
    "run fmt unmarshal sched m0 = Inr m"
    "chan_buf (EventChan m) = drop k [e1, e2, e3]"
    "k \<le> 3"
    "Metrics (Processor m)
       = counted \<lparr>TotalEvents = 0, ProcessedEvents = 0, AnomaliesDetected = 0, ErrorCount = 0\<rparr>
           (take k [e1, e2, e3])"
    "filter is_anomaly_line (Stdout (Processor m))
       = map anomaly_line (filter isKnownThreat (take k [e1, e2, e3]))"
    unfolding acc by (auto simp: m0)
  have drained: "chan_buf (EventChan m) = [] \<Longrightarrow> k = 3"
    using r(2) r(3) by simp
  have a: "chan_buf (EventChan m) = [] \<longrightarrow>
                Metrics (Processor m)
                  = \<lparr>TotalEvents = 3, ProcessedEvents = 3,
                     AnomaliesDetected = (if isKnownThreat e2 then 2 else 1), ErrorCount = 0\<rparr>
                \<and> filter is_anomaly_line (Stdout (Processor m))
                  = anomaly_line e1 # (if isKnownThreat e2 then [anomaly_line e2] else [])"
    using r(4) r(5) drained by (auto simp: counted_def k1 e3)
  have sens: "isSensitiveFile path"
    using e2(3) by (simp add: isSensitiveFile_def sensitivePatterns_def)
  have lo: "0.3 \<le> getAIRiskScore (fst (Extract fmt e2 ep))"
    by (rule sensitive_path_score [OF e2(1) e2(2) sens])
  have hi: "getAIRiskScore (fst (Extract fmt e2 ep)) \<le> 0.7"
    by (rule extracted_score_bound)
  have b: "Anomaly (fst (snd (processEvent fmt now e2 ep))) = isKnownThreat e2
           \<and> 0.3 \<le> RiskScore (fst (snd (processEvent fmt now e2 ep)))"
    using lo hi by (simp add: processEvent_verdict Let_def)
  show ?thesis using r(1) a b by blast
qed

lemma ingest_demo:
  assumes "unmarshal line = Inr event" and "length q < c"
    and "mc_Namespace cfg = []" and "Deployment cfg = []"
  shows "consume_line unmarshal line
           \<lparr>Config = cfg,
            EventChan = \<lparr>chan_cap = c, chan_buf = q, chan_closed = False\<rparr>,
            Processor = ep\<rparr>
         = Inr \<lparr>Config = cfg,
                EventChan = \<lparr>chan_cap = c, chan_buf = q @ [event], chan_closed = False\<rparr>,
                Processor = ep\<rparr>"
  using assms
  by (simp add: consume_line_def parseEvent_def shouldProcessEvent_def
      select_send_def Let_def)

lemma work_demo:
  "receive_step fmt wid now
     \<lparr>Config = cfg,
      EventChan = \<lparr>chan_cap = c, chan_buf = event # q, chan_closed = False\<rparr>,
      Processor = ep\<rparr>
   = \<lparr>Config = cfg,
      EventChan = \<lparr>chan_cap = c, chan_buf = q, chan_closed = False\<rparr>,
      Processor = handle_event fmt wid now event ep\<rparr>"
  by (simp add: receive_step_def)

lemma demo_run:
  "run demo_fmt demo_unmarshal three_event_schedule (demo_monitor 10 [])
     = Inr \<lparr>Config = demo_config 10,
            EventChan = \<lparr>chan_cap = 10, chan_buf = [], chan_closed = False\<rparr>,
            Processor =
              handle_event demo_fmt 0 3 benign_event
                (handle_event demo_fmt 0 2 shadow_event
                   (handle_event demo_fmt 0 1 critical_event (NewEventProcessor 1)))\<rparr>"
  by (simp add: three_event_schedule_def demo_monitor_def ingest_demo demo_lines work_demo
      demo_config_def)

lemma demo_run_drained:
  "run demo_fmt demo_unmarshal drained_schedule (demo_monitor 10 [])
     = Inr \<lparr>Config = demo_config 10,
            EventChan = \<lparr>chan_cap = 10, chan_buf = [], chan_closed = False\<rparr>,
            Processor =
              handle_event demo_fmt 0 3 benign_event
                (handle_event demo_fmt 0 2 shadow_event
                   (handle_event demo_fmt 0 1 critical_event (NewEventProcessor 1)))\<rparr>"
  by (simp add: drained_schedule_def demo_monitor_def ingest_demo demo_lines work_demo
      demo_config_def)

lemma demo_queue:
  "queue_of (run demo_fmt demo_unmarshal three_event_schedule (demo_monitor 10 [])) = Some []"
  by (simp add: demo_run queue_of_def)

theorem three_event_scenario_witness:
  "NewMonitor (demo_config 10) = Inr (demo_monitor 10 [])
   \<and> ingested three_event_schedule = [''c'', ''s'', ''b'']
   \<and> contains ''/etc/shadow'' ''/etc/shadow''
   \<and> queue_of (run demo_fmt demo_unmarshal three_event_schedule (demo_monitor 10 [])) = Some []
   \<and> metrics_of (run demo_fmt demo_unmarshal three_event_schedule (demo_monitor 10 []))
       = Some \<lparr>TotalEvents = 3, ProcessedEvents = 3, AnomaliesDetected = 1, ErrorCount = 0\<rparr>"
proof -
  have cfg: "BufferSize (demo_config 10) = 10" "mc_Workers (demo_config 10) = 1"
    "mc_Namespace (demo_config 10) = []" "Deployment (demo_config 10) = []"
    by (simp_all add: demo_config_def)
  have start: "NewMonitor (demo_config 10) = Inr (demo_monitor 10 [])"
    by (simp add: NewMonitor_def make_chan_def word_sless_alt demo_monitor_def
        demo_config_def)
  have lines: "ingested three_event_schedule = [''c'', ''s'', ''b'']"
    by (simp add: three_event_schedule_def)
  have e1: "Priority critical_event = ''Critical''"
    by (simp add: critical_event_def blank_event_def)
  have e2: "Fields shadow_event = Some [''fd.name'' \<mapsto> JString ''/etc/shadow'']"
    "[''fd.name'' \<mapsto> JString ''/etc/shadow''] ''fd.name'' = Some (JString ''/etc/shadow'')"
    "contains ''/etc/shadow'' ''/etc/shadow''"
    by (simp_all add: shadow_event_def blank_event_def contains.simps)
  from three_event_scenario [OF cfg start lines demo_lines e1 e2 demo_events(3), of demo_fmt]
  obtain m where m: "run demo_fmt demo_unmarshal three_event_schedule (demo_monitor 10 []) = Inr m"
    "chan_buf (EventChan m) = [] \<longrightarrow>
                Metrics (Processor m)
                  = \<lparr>TotalEvents = 3, ProcessedEvents = 3,
                     AnomaliesDetected = (if isKnownThreat shadow_event then 2 else 1),
                     ErrorCount = 0\<rparr>"
    by blast
  have q: "chan_buf (EventChan m) = []"
    using demo_queue by (simp add: m(1) queue_of_def)
  show ?thesis
    using start lines e2(3) demo_queue m q
    by (simp add: metrics_of_def demo_events)
qed

text \<open>
  The scenario run on the sample events (the second one reads \<open>/etc/shadow\<close>): the
  three events are handled, one anomaly is counted and one anomaly line is printed,
  not two.
\<close>

theorem three_events_one_anomaly:
  "metrics_of (run demo_fmt demo_unmarshal drained_schedule (demo_monitor 10 []))
     = Some \<lparr>TotalEvents = 3, ProcessedEvents = 3, AnomaliesDetected = 1, ErrorCount = 0\<rparr>
   \<and> anomaly_lines_of (run demo_fmt demo_unmarshal drained_schedule (demo_monitor 10 []))
     = Some [anomaly_line critical_event]
   \<and> Fields shadow_event = Some [''fd.name'' \<mapsto> JString ''/etc/shadow'']"
proof -
  let ?ep = "handle_event demo_fmt 0 3 benign_event
               (handle_event demo_fmt 0 2 shadow_event
                  (handle_event demo_fmt 0 1 critical_event (NewEventProcessor 1)))"
  have z: "Metrics (NewEventProcessor 1)
             = \<lparr>TotalEvents = 0, ProcessedEvents = 0, AnomaliesDetected = 0, ErrorCount = 0\<rparr>"
    "Stdout (NewEventProcessor 1) = []"
    by (simp_all add: NewEventProcessor_def)
  have a: "Metrics ?ep
     = \<lparr>TotalEvents = 3, ProcessedEvents = 3, AnomaliesDetected = 1, ErrorCount = 0\<rparr>"
    by (simp add: handle_event_Metrics counted_def z demo_events)
  have b: "Stdout ?ep = [anomaly_line critical_event]"
    by (simp add: handle_event_Stdout z demo_events)
  show ?thesis
    by (simp add: demo_run_drained metrics_of_def anomaly_lines_of_def a b anomaly_line_is)
      (simp add: shadow_event_def blank_event_def)
qed

subsection \<open>Shutdown\<close>

lemma not_Running: "t \<noteq> Running \<longleftrightarrow> t = Exited"
  by (cases t) simp_all

lemma reachable_invariant:
  assumes "reachable n s"
  shows "monitor_wg s = (if ingestion s = Running then 1 else 0)
                        + (if collector s = Running then 1 else 0)
       \<and> (stop s \<noteq> NotCalled \<longrightarrow> cancelled s)
       \<and> (stop s = AfterWait \<or> stop s = AfterClose \<longrightarrow> monitor_wg s = 0)
       \<and> (queue_closed s \<longleftrightarrow> stop s = AfterClose)
       \<and> length (worker_tasks s) = n"
  using assms
proof (induction rule: reachable.induct)
  case reach_start
  show ?case by (simp add: started_def)
next
  case (reach_step s s')
  from reach_step.hyps(2) reach_step.IH show ?case
    by (cases rule: lc_step.cases) (auto split: if_splits)
qed

lemma reach_closed_with_worker_running: "reachable 1 closed_with_worker_running"
proof -
  let ?s1 = "(started 1)\<lparr>cancelled := True, stop := AfterCancel\<rparr>"
  let ?s2 = "?s1\<lparr>ingestion := Exited, monitor_wg := monitor_wg ?s1 - 1\<rparr>"
  let ?s3 = "?s2\<lparr>collector := Exited, monitor_wg := monitor_wg ?s2 - 1\<rparr>"
  let ?s4 = "?s3\<lparr>stop := AfterWait\<rparr>"
  let ?s5 = "?s4\<lparr>queue_closed := True, stop := AfterClose\<rparr>"
  have r0: "reachable 1 (started 1)" by (rule reach_start)
  have "lc_step (started 1) ?s1"
    by (rule stop_cancel) (simp add: started_def)
  with r0 have r1: "reachable 1 ?s1" by (rule reach_step)
  have "lc_step ?s1 ?s2"
    by (rule ingestion_exit) (simp add: started_def)
  with r1 have r2: "reachable 1 ?s2" by (rule reach_step)
  have "lc_step ?s2 ?s3"
    by (rule collector_exit) (simp_all add: started_def)
  with r2 have r3: "reachable 1 ?s3" by (rule reach_step)
  have "lc_step ?s3 ?s4"
    by (rule stop_wait) (simp_all add: started_def)
  with r3 have r4: "reachable 1 ?s4" by (rule reach_step)
  have "lc_step ?s4 ?s5"
    by (rule stop_close) (simp add: started_def)
  with r4 have r5: "reachable 1 ?s5" by (rule reach_step)
  have "?s5 = closed_with_worker_running"
    by (simp add: started_def closed_with_worker_running_def)
  with r5 show ?thesis by simp
qed

text \<open>
  C9, as the code has it: \<open>Stop\<close> first cancels the context, then waits for the
  ingestion task and the metrics collector (the two tasks of the monitor's wait group)
  to exit, and only then closes the queue; it does not wait for the workers. A worker
  that finds the queue closed returns without counting an error: no counter changes.
\<close>

theorem stop_order:
  assumes "reachable n s"
  shows "(stop s \<noteq> NotCalled \<longrightarrow> cancelled s)
       \<and> (stop s = AfterWait \<or> stop s = AfterClose \<longrightarrow>
            ingestion s = Exited \<and> collector s = Exited)
       \<and> (queue_closed s \<longrightarrow>
            stop s = AfterClose \<and> cancelled s \<and> ingestion s = Exited \<and> collector s = Exited)
       \<and> worker_loop fmt wid (ChanClosed # rest) ep
            = (Returned, print_line (WorkerChannelClosed wid) ep)
       \<and> Metrics (print_line (WorkerChannelClosed wid) ep) = Metrics ep"
proof -
  from reachable_invariant [OF assms]
  have "(stop s \<noteq> NotCalled \<longrightarrow> cancelled s)
       \<and> (stop s = AfterWait \<or> stop s = AfterClose \<longrightarrow>
            ingestion s = Exited \<and> collector s = Exited)
       \<and> (queue_closed s \<longrightarrow>
            stop s = AfterClose \<and> cancelled s \<and> ingestion s = Exited \<and> collector s = Exited)"
    by (auto simp: not_Running split: if_splits)
  then show ?thesis by (simp add: print_line_def)
qed

theorem stop_order_witness:
  "reachable 1 closed_with_worker_running
   \<and> queue_closed closed_with_worker_running
   \<and> stop closed_with_worker_running = AfterClose
   \<and> cancelled closed_with_worker_running
   \<and> ingestion closed_with_worker_running = Exited
   \<and> collector closed_with_worker_running = Exited"
proof -
  have q: "queue_closed closed_with_worker_running"
    by (simp add: closed_with_worker_running_def)
  from stop_order [OF reach_closed_with_worker_running] q
    reach_closed_with_worker_running
  show ?thesis by blast
qed

text \<open>
  With one worker, the state in which the queue is closed while the worker is still
  running is reachable: \<open>Stop\<close> has not waited for it.
\<close>

theorem queue_closed_before_worker_exit:
  "reachable 1 closed_with_worker_running
   \<and> queue_closed closed_with_worker_running
   \<and> worker_tasks closed_with_worker_running ! 0 = Running"
proof -
  have "queue_closed closed_with_worker_running"
    and "worker_tasks closed_with_worker_running ! 0 = Running"
    by (simp_all add: closed_with_worker_running_def)
  with reach_closed_with_worker_running show ?thesis by blast
qed

subsection \<open>Retention and the vault\<close>

text \<open>
  C3: the retention policy keeps a record if and only if its severity is \<open>critical\<close> or
  \<open>high\<close>, or its severity is \<open>medium\<close> and its risk score is greater than 0.7, or its
  incident type is set and is not \<open>false-positive\<close>. A \<open>critical\<close> record with risk
  score 0.1 is kept; a \<open>low\<close> record with risk score 0.99 is kept exactly when its
  incident type is set and is not \<open>false-positive\<close>.
\<close>

theorem retention_rule:
  "(ShouldRetain rp record \<longleftrightarrow>
      (Severity record = ''critical'' \<or> Severity record = ''high'')
      \<or> (Severity record = ''medium'' \<and> fr_RiskScore record > 0.7)
      \<or> (IncidentType record \<noteq> [] \<and> IncidentType record \<noteq> ''false-positive''))
   \<and> (Severity record = ''critical'' \<and> fr_RiskScore record = 0.1 \<longrightarrow> ShouldRetain rp record)
   \<and> (Severity record = ''low'' \<and> fr_RiskScore record = 0.99 \<longrightarrow>
        (ShouldRetain rp record \<longleftrightarrow>
           IncidentType record \<noteq> [] \<and> IncidentType record \<noteq> ''false-positive''))"
  by (auto simp: ShouldRetain_def)

theorem retention_rule_witness:
  "Severity critical_low_risk = ''critical'' \<and> fr_RiskScore critical_low_risk = 0.1
   \<and> ShouldRetain (Policy demo_vault) critical_low_risk
   \<and> Severity low_high_risk = ''low'' \<and> fr_RiskScore low_high_risk = 0.99
   \<and> IncidentType low_high_risk = []
   \<and> \<not> ShouldRetain (Policy demo_vault) low_high_risk"
proof -
  have a: "Severity critical_low_risk = ''critical'' \<and> fr_RiskScore critical_low_risk = 0.1"
    by (simp add: critical_low_risk_def blank_record_def)
  have b: "Severity low_high_risk = ''low'' \<and> fr_RiskScore low_high_risk = 0.99
           \<and> IncidentType low_high_risk = []"
    by (simp add: low_high_risk_def blank_record_def)
  from retention_rule [of "Policy demo_vault" critical_low_risk]
       retention_rule [of "Policy demo_vault" low_high_risk] a b
  show ?thesis by blast
qed

lemma ShouldRetain_ignores_id_time:
  "ShouldRetain rp (record\<lparr>fr_ID := i\<rparr>) = ShouldRetain rp record"
  "ShouldRetain rp (record\<lparr>fr_Timestamp := t\<rparr>) = ShouldRetain rp record"
  by (simp_all add: ShouldRetain_def)

text \<open>
  C4, as the code has it: for a record the retention policy does not accept,
  \<open>StoreRecord\<close> returns a non-nil error, the one with the message
  \<open>record does not meet retention criteria\<close>, through the same result that reports a
  failed marshal or write; no file is written (the file system is the one it was given)
  and nothing is printed.
\<close>

theorem store_rejected_record:
  assumes "\<not> ShouldRetain (Policy v) record"
  shows "StoreRecord lib v now_id now_ts record fs
           = (Some ''record does not meet retention criteria'', fs, [])"
  using assms by (simp add: StoreRecord_def Let_def ShouldRetain_ignores_id_time)

lemma low_high_risk_rejected: "\<not> ShouldRetain (Policy demo_vault) low_high_risk"
  by (simp add: ShouldRetain_def low_high_risk_def blank_record_def)

theorem store_rejected_record_witness:
  "\<not> ShouldRetain (Policy demo_vault) low_high_risk \<and>
   StoreRecord demo_lib demo_vault 5 6 low_high_risk demo_fs
     = (Some ''record does not meet retention criteria'', demo_fs, [])"
  using store_rejected_record [OF low_high_risk_rejected, of demo_lib 5 6 demo_fs]
    low_high_risk_rejected by simp

text \<open>
  The rejection is not an outcome apart from the errors: for a \<open>low\<close> record the
  function returns a Go error value.
\<close>

theorem rejection_is_an_error:
  "\<not> ShouldRetain (Policy demo_vault) (blank_record\<lparr>Severity := ''low''\<rparr>) \<and>
   fst (StoreRecord demo_lib demo_vault 5 6 (blank_record\<lparr>Severity := ''low''\<rparr>) demo_fs)
     = Some ''record does not meet retention criteria''"
  by (simp add: StoreRecord_def Let_def ShouldRetain_def blank_record_def)

lemma list_loop_eq:
  "list_loop lib fs from_t to_t files records =
     records @ filter (\<lambda>r. from_t < fr_Timestamp r \<and> fr_Timestamp r < to_t)
                 (List.map_filter (stored_record lib fs) files)"
  by (induction files arbitrary: records)
     (auto simp: stored_record_def split: sum.splits)

text \<open>
  C8: when the glob of the storage directory gives the files, \<open>ListRecords\<close> returns
  the records of the files that can be read and decoded whose timestamp is strictly
  after \<open>from\<close> and strictly before \<open>to\<close>, in the order of the files; a file that cannot
  be read or decoded contributes nothing and the query still returns its list.
\<close>

theorem list_records_open_interval:
  assumes "filepath_Glob lib fs (filepath_Join lib (StoragePath (v_Config v)) ''*.json'')
             = Inr files"
  shows "ListRecords lib v from_t to_t fs =
           Inr (filter (\<lambda>r. from_t < fr_Timestamp r \<and> fr_Timestamp r < to_t)
                  (List.map_filter (stored_record lib fs) files))"
  using assms by (simp add: ListRecords_def list_loop_eq)

lemma demo_glob:
  "filepath_Glob demo_lib demo_fs
      (filepath_Join demo_lib (StoragePath (v_Config demo_vault)) ''*.json'')
     = Inr [''/v/a.json'', ''/v/b.json'', ''/v/c.json'', ''/v/d.json'']"
  by (simp add: demo_lib_def demo_fs_def demo_vault_def)

lemma demo_stored:
  "stored_record demo_lib demo_fs ''/v/a.json'' = Some (record_at 100)"
  "stored_record demo_lib demo_fs ''/v/b.json'' = Some (record_at 200)"
  "stored_record demo_lib demo_fs ''/v/c.json'' = Some (record_at 300)"
  "stored_record demo_lib demo_fs ''/v/d.json'' = None"
  by (simp_all add: stored_record_def demo_lib_def demo_fs_def demo_decode_def)

theorem list_records_open_interval_witness:
  "ListRecords demo_lib demo_vault 100 300 demo_fs = Inr [record_at 200]"
proof -
  have ts: "fr_Timestamp (record_at 100) = 100" "fr_Timestamp (record_at 200) = 200"
    "fr_Timestamp (record_at 300) = 300"
    by (simp_all add: record_at_def)
  show ?thesis
    using list_records_open_interval [OF demo_glob, of 100 300]
    by (simp add: demo_stored ts)
qed

end
